theory Spec2Isabelle
  imports Complex_Main "HOL-Library.Sublist"
begin

section \<open>Python strings and the string operations the program uses\<close>

text \<open>
  A Python \<^verbatim>\<open>str\<close> is a sequence of Unicode code points and \<^verbatim>\<open>len\<close> counts code
  points, so page text, keywords and URLs are lists of code points. String literals of the
  source are written with \<open>lit\<close>.
\<close>

type_synonym pystr = "nat list"

definition lit :: "string \<Rightarrow> pystr" where
  "lit s = map of_char s"

text \<open>The characters \<^verbatim>\<open>str.isspace\<close> accepts; \<^verbatim>\<open>strip()\<close> and \<^verbatim>\<open>split()\<close> cut at them.\<close>

definition py_isspace :: "nat \<Rightarrow> bool" where
  "py_isspace c \<longleftrightarrow>
     (9 \<le> c \<and> c \<le> 13) \<or> (28 \<le> c \<and> c \<le> 32) \<or> c = 133 \<or> c = 160 \<or> c = 5760 \<or>
     (8192 \<le> c \<and> c \<le> 8202) \<or> c = 8232 \<or> c = 8233 \<or> c = 8239 \<or> c = 8287 \<or> c = 12288"

definition py_strip :: "pystr \<Rightarrow> pystr" where
  "py_strip s = rev (dropWhile py_isspace (rev (dropWhile py_isspace s)))"

text \<open>\<^verbatim>\<open>s.split()\<close>: the maximal runs of non-whitespace, in order; \<open>w\<close> is the run being read.\<close>

fun split_acc :: "pystr \<Rightarrow> pystr \<Rightarrow> pystr list" where
  "split_acc w [] = (if w = [] then [] else [w])"
| "split_acc w (c # cs) =
     (if py_isspace c then (if w = [] then split_acc [] cs else w # split_acc [] cs)
      else split_acc (w @ [c]) cs)"

definition py_split :: "pystr \<Rightarrow> pystr list" where
  "py_split s = split_acc [] s"

text \<open>\<^verbatim>\<open>a in b\<close> on strings: \<open>a\<close> occurs in \<open>b\<close> as a contiguous run.\<close>

fun py_in :: "pystr \<Rightarrow> pystr \<Rightarrow> bool" where
  "py_in a [] = (a = [])"
| "py_in a (c # cs) = (prefix a (c # cs) \<or> py_in a cs)"

text \<open>
  Python's Unicode database is not part of the sources. A pattern \<^verbatim>\<open>\d\<close> on a
  \<^verbatim>\<open>str\<close> matches every code point that has a decimal digit value, and \<^verbatim>\<open>int\<close>
  reads these values; \<^verbatim>\<open>int\<close> raises \<^verbatim>\<open>ValueError\<close> on more digits than the
  interpreter's limit allows (4300 by default from CPython 3.11 on). Both are parameters:
  \<open>decimal c\<close> is the digit value of the code point \<open>c\<close>, if it has one, and
  \<open>max_str_digits\<close> is the limit, \<open>0\<close> when there is none.
\<close>

record runtime =
  decimal :: "nat \<Rightarrow> nat option"
  max_str_digits :: nat

definition is_digit :: "runtime \<Rightarrow> nat \<Rightarrow> bool" where
  "is_digit rt c \<longleftrightarrow> decimal rt c \<noteq> None"

text \<open>\<^verbatim>\<open>re.search(r'\d+', s)\<close>: the leftmost maximal run of digits, if there is one.\<close>

definition re_search_digits :: "runtime \<Rightarrow> pystr \<Rightarrow> pystr option" where
  "re_search_digits rt s =
     (case dropWhile (\<lambda>c. \<not> is_digit rt c) s of
        [] \<Rightarrow> None
      | r # rs \<Rightarrow> Some (takeWhile (is_digit rt) (r # rs)))"

definition digit_value :: "runtime \<Rightarrow> nat \<Rightarrow> nat" where
  "digit_value rt c = (case decimal rt c of None \<Rightarrow> 0 | Some v \<Rightarrow> v)"

definition remove_commas :: "pystr \<Rightarrow> pystr" where
  "remove_commas s = filter (\<lambda>c. c \<noteq> 44) s"

text \<open>\<^verbatim>\<open>str(n)\<close> of a non-negative integer: its decimal digits.\<close>

function py_str :: "nat \<Rightarrow> pystr" where
  "py_str n = (if n < 10 then [48 + n] else py_str (n div 10) @ [48 + n mod 10])"
  by pat_completeness auto
termination
  by (relation "measure id") auto

section \<open>Exceptions, log records and the trace of a run\<close>

text \<open>
  The exception classes the source names in its \<^verbatim>\<open>except\<close> clauses, the
  \<^verbatim>\<open>ValueError\<close> of \<^verbatim>\<open>int\<close> and \<^verbatim>\<open>time.sleep\<close>, and
  \<open>WebDriverException\<close> for every other subclass of \<^verbatim>\<open>Exception\<close> a driver call can
  raise (a stale element, a lost session).
\<close>

datatype exn =
    NoSuchElementException
  | TimeoutException
  | ElementClickInterceptedException
  | ValueError
  | WebDriverException

datatype level = INFO | WARNING | ERROR

text \<open>\<^verbatim>\<open>int(ds)\<close> of a run of digits.\<close>

definition py_int :: "runtime \<Rightarrow> pystr \<Rightarrow> exn + nat" where
  "py_int rt ds =
     (if 0 < max_str_digits rt \<and> max_str_digits rt < length ds then Inl ValueError
      else Inr (foldl (\<lambda>a c. 10 * a + digit_value rt c) 0 ds))"

section \<open>page\_optimizer.py: the audit of a landing page\<close>

text \<open>
  What the driver answers on the page under audit, one field per query the checks make:
  \<^item> \<open>deletion_els\<close>: \<^verbatim>\<open>find_elements(DELETION_SELECTOR)\<close>, the number of elements found;
  \<^item> \<open>title\<close>: \<^verbatim>\<open>driver.title\<close>;
  \<^item> \<open>meta_desc\<close>: \<^verbatim>\<open>find_element('meta[name="description"]').get_attribute("content")\<close>,
    \<open>None\<close> when the attribute is absent;
  \<^item> \<open>count_text\<close>: \<^verbatim>\<open>find_element(PRODUCT_COUNT_SELECTOR).text\<close>;
  \<^item> \<open>seo_text\<close>: \<^verbatim>\<open>find_element(SEO_CONTAINER_SELECTOR).text\<close>.
  \<^verbatim>\<open>find_element\<close> raises \<open>NoSuchElementException\<close> when nothing matches.
\<close>

record page =
  deletion_els :: "exn + nat"
  title :: "exn + pystr"
  meta_desc :: "exn + pystr option"
  count_text :: "exn + pystr"
  seo_text :: "exn + pystr"

datatype probe = DeletionProbe | TitleProbe | MetaProbe | CountProbe | SeoProbe

datatype audit_msg =
    AnalysisStart pystr
  | DeletionFound
  | DeletionError exn
  | TitleMissing
  | MetaMissing
  | PlaceholderFound
  | TitleLength nat
  | MetaLength nat
  | TMError exn
  | CountFound nat
  | CountLow
  | CountUnparsable
  | CountMissing
  | CountError exn
  | ContentWords nat
  | ContentLow
  | ContentMissing
  | ContentError exn
  | AllPassed

text \<open>A run leaves a trace: the driver queries it made and the records it logged, in order.\<close>

datatype audit_event = Probe probe | Logged level audit_msg

definition PLACEHOLDER :: nat where
  "PLACEHOLDER = 10031"

definition check_for_deletion :: "page \<Rightarrow> bool \<times> audit_event list" where
  "check_for_deletion d =
     (case deletion_els d of
        Inl e \<Rightarrow> (False, [Probe DeletionProbe, Logged ERROR (DeletionError e)])
      | Inr n \<Rightarrow>
          if 0 < n then (True, [Probe DeletionProbe, Logged WARNING DeletionFound])
          else (False, [Probe DeletionProbe]))"

definition check_for_tm_optimization :: "page \<Rightarrow> bool \<times> audit_event list" where
  "check_for_tm_optimization d =
     (case title d of
        Inl e \<Rightarrow> (False, [Probe TitleProbe, Logged ERROR (TMError e)])
      | Inr t \<Rightarrow>
          if t = [] then (True, [Probe TitleProbe, Logged WARNING TitleMissing])
          else
            (case meta_desc d of
               Inl e \<Rightarrow>
                 if e = NoSuchElementException
                 then (True, [Probe TitleProbe, Probe MetaProbe, Logged WARNING MetaMissing])
                 else (False, [Probe TitleProbe, Probe MetaProbe, Logged ERROR (TMError e)])
             | Inr content \<Rightarrow>
                 (let m = (case content of None \<Rightarrow> [] | Some c \<Rightarrow> c) in
                  if PLACEHOLDER \<in> set m
                  then (True, [Probe TitleProbe, Probe MetaProbe, Logged WARNING PlaceholderFound])
                  else if \<not> (45 \<le> length t \<and> length t \<le> 70)
                  then (True, [Probe TitleProbe, Probe MetaProbe,
                               Logged WARNING (TitleLength (length t))])
                  else if \<not> (145 \<le> length m \<and> length m \<le> 165)
                  then (True, [Probe TitleProbe, Probe MetaProbe,
                               Logged WARNING (MetaLength (length m))])
                  else (False, [Probe TitleProbe, Probe MetaProbe]))))"

definition is_product_count_sufficient :: "runtime \<Rightarrow> page \<Rightarrow> bool \<times> audit_event list" where
  "is_product_count_sufficient rt d =
     (case count_text d of
        Inl e \<Rightarrow>
          if e = NoSuchElementException
          then (False, [Probe CountProbe, Logged WARNING CountMissing])
          else (False, [Probe CountProbe, Logged ERROR (CountError e)])
      | Inr shown_count \<Rightarrow>
          (case re_search_digits rt (remove_commas shown_count) of
             Some ds \<Rightarrow>
               (case py_int rt ds of
                  Inl e \<Rightarrow> (False, [Probe CountProbe, Logged ERROR (CountError e)])
                | Inr product_count \<Rightarrow>
                    if product_count < 13
                    then (False, [Probe CountProbe, Logged INFO (CountFound product_count),
                                  Logged WARNING CountLow])
                    else (True, [Probe CountProbe, Logged INFO (CountFound product_count)]))
           | None \<Rightarrow> (False, [Probe CountProbe, Logged WARNING CountUnparsable])))"

definition check_for_content_optimization :: "page \<Rightarrow> bool \<times> audit_event list" where
  "check_for_content_optimization d =
     (case seo_text d of
        Inl e \<Rightarrow>
          if e = NoSuchElementException
          then (True, [Probe SeoProbe, Logged WARNING ContentMissing])
          else (False, [Probe SeoProbe, Logged ERROR (ContentError e)])
      | Inr txt \<Rightarrow>
          (let word_count = length (py_split txt) in
           if word_count < 250
           then (True, [Probe SeoProbe, Logged INFO (ContentWords word_count),
                        Logged WARNING ContentLow])
           else (False, [Probe SeoProbe, Logged INFO (ContentWords word_count)])))"

text \<open>The dictionary \<^verbatim>\<open>{'status': s, 'value': v}\<close> the funnel returns.\<close>

type_synonym pydict = "string \<rightharpoonup> pystr"

definition result_dict :: "string \<Rightarrow> string \<Rightarrow> pydict" where
  "result_dict s v = [''status'' \<mapsto> lit s, ''value'' \<mapsto> lit v]"

definition analyze_myntra_page ::
  "runtime \<Rightarrow> page \<Rightarrow> pystr \<Rightarrow> pystr \<Rightarrow> pydict \<times> audit_event list" where
  "analyze_myntra_page rt d keyword start_url =
     (let t0 = [Logged INFO (AnalysisStart keyword)];
          (deletion, t1) = check_for_deletion d in
      if deletion then (result_dict ''Deletion'' ''Yes'', t0 @ t1)
      else
        (let (tm, t2) = check_for_tm_optimization d in
         if tm then (result_dict ''T&M'' ''Yes'', t0 @ t1 @ t2)
         else
           (let (sufficient, t3) = is_product_count_sufficient rt d in
            if \<not> sufficient
            then (result_dict ''Low Product Count'' ''Analysis stopped due to < 13 products.'',
                  t0 @ t1 @ t2 @ t3)
            else
              (let (content, t4) = check_for_content_optimization d in
               if content then (result_dict ''Content'' ''Yes'', t0 @ t1 @ t2 @ t3 @ t4)
               else (result_dict ''Optimized'' ''All checks passed'',
                     t0 @ t1 @ t2 @ t3 @ t4 @ [Logged INFO AllPassed])))))"

text \<open>
  The spec's reading of the funnel: an ordered list of rules, each a check, the answer of
  the check that fires the rule, and the category and value then returned; the list is
  evaluated in order and stops at the first rule that fires.
\<close>

definition audit_rules ::
  "runtime \<Rightarrow> ((page \<Rightarrow> bool \<times> audit_event list) \<times> bool \<times> string \<times> string) list" where
  "audit_rules rt =
     [(check_for_deletion, True, ''Deletion'', ''Yes''),
      (check_for_tm_optimization, True, ''T&M'', ''Yes''),
      (is_product_count_sufficient rt, False, ''Low Product Count'',
         ''Analysis stopped due to < 13 products.''),
      (check_for_content_optimization, True, ''Content'', ''Yes'')]"

fun first_match ::
  "((page \<Rightarrow> bool \<times> audit_event list) \<times> bool \<times> string \<times> string) list \<Rightarrow> page \<Rightarrow>
   audit_event list \<Rightarrow> pydict \<times> audit_event list" where
  "first_match [] d tr =
     (result_dict ''Optimized'' ''All checks passed'', tr @ [Logged INFO AllPassed])"
| "first_match ((check, fires, s, v) # rules) d tr =
     (case check d of (b, t) \<Rightarrow>
        if b = fires then (result_dict s v, tr @ t) else first_match rules d (tr @ t))"

definition CATEGORIES :: "string list" where
  "CATEGORIES = [''Deletion'', ''T&M'', ''Low Product Count'', ''Content'', ''Optimized'']"

text \<open>
  main\_automator.py, lines 164--175: the three result cells of the row are cleared and the
  one the status selects is written.
\<close>

definition write_analysis_result :: "pydict \<Rightarrow> pystr \<Rightarrow> pystr \<Rightarrow> (nat \<rightharpoonup> pystr)" where
  "write_analysis_result analysis_result keyword page_to_analyze =
     (let analysis_status = analysis_result ''status'';
          cells = [5 \<mapsto> [], 6 \<mapsto> [], 7 \<mapsto> []] in
      if analysis_status = Some (lit ''Deletion'') then cells(5 \<mapsto> keyword)
      else if analysis_status = Some (lit ''T&M'') then cells(6 \<mapsto> page_to_analyze)
      else if analysis_status = Some (lit ''Content'') then cells(7 \<mapsto> page_to_analyze)
      else cells)"

text \<open>Pages and texts of a given size, for concrete instances.\<close>

definition sample_page :: "nat \<Rightarrow> nat \<Rightarrow> nat \<Rightarrow> exn + pystr \<Rightarrow> exn + pystr \<Rightarrow> page" where
  "sample_page n title_len meta_len counter body =
     \<lparr>deletion_els = Inr n, title = Inr (replicate title_len 97),
      meta_desc = Inr (Some (replicate meta_len 97)), count_text = counter, seo_text = body\<rparr>"

definition words :: "nat \<Rightarrow> pystr" where
  "words n = concat (replicate n [97, 32])"

text \<open>A runtime that knows the ASCII and the Arabic-Indic digits, with the default limit.\<close>

definition sample_runtime :: runtime where
  "sample_runtime =
     \<lparr>decimal = (\<lambda>c. if 48 \<le> c \<and> c \<le> 57 then Some (c - 48)
                      else if 1632 \<le> c \<and> c \<le> 1641 then Some (c - 1632)
                      else None),
      max_str_digits = 4300\<rparr>"

section \<open>google\_rank\_finder.py: the rank search\<close>

text \<open>
  The module \<^verbatim>\<open>config\<close> is not part of the sources; the two constants of it that
  \<open>handle_captcha\<close> reads are parameters, numbers of seconds.
\<close>

record config =
  CAPTCHA_WAIT_TIMEOUT :: real
  CAPTCHA_CHECK_INTERVAL :: real

definition MAX_PAGES_TO_SCRAPE :: nat where
  "MAX_PAGES_TO_SCRAPE = 1"

datatype delay = Typing | AfterPageLoad | SerpRead | BeforeNextPage

datatype rank_msg =
    CaptchaDetected
  | CaptchaSolved
  | CaptchaTimeout
  | AbortingKeyword pystr
  | MatchFound pystr
  | ScrapeError exn
  | ScrapingPage nat pystr
  | FoundAtRank nat nat pystr
  | MovingToNextPage
  | NoNextButton
  | SearchBoxNotFound pystr
  | UnexpectedError pystr exn
  | FinishedNotFound pystr

text \<open>
  What a rank search does to the outside, in order: driver calls, sleeps, the alert, the
  console output and the log records.
\<close>

datatype rank_event =
    Navigate
  | Delay delay
  | WaitSearchBox
  | Key nat
  | Submit
  | Detour
  | CaptchaPoll nat
  | Notice
  | Alert pystr
  | Sleep real
  | Dot
  | NextButtonQuery
  | NextClick
  | Log level rank_msg

subsection \<open>handle\_captcha\<close>

text \<open>
  The gate sees the outside through two sequences: \<open>marker i\<close> is the driver's answer to
  its \<open>i\<close>-th query for the reCAPTCHA frame (\<open>Inr True\<close>: the frame is there), and
  \<open>clock i\<close> is the value of \<^verbatim>\<open>time.time() - start_time\<close> at the \<open>i\<close>-th test of the
  loop, read from the wall clock, so that the time the queries, the alert and the output
  take counts as well as the sleeps. \<^verbatim>\<open>time.sleep\<close> raises \<^verbatim>\<open>ValueError\<close> on a
  negative length. A clock that never reaches the timeout keeps the loop running while the
  marker stays: the function is partial.
\<close>

partial_function (option) captcha_wait ::
  "config \<Rightarrow> (nat \<Rightarrow> exn + bool) \<Rightarrow> (nat \<Rightarrow> real) \<Rightarrow> pystr \<Rightarrow> nat \<Rightarrow> bool \<Rightarrow>
   rank_event list \<Rightarrow> ((exn + bool) \<times> rank_event list) option"
where
  "captcha_wait cfg marker clock keyword i alert_sent tr =
     (if clock i < CAPTCHA_WAIT_TIMEOUT cfg then
        (case marker i of
           Inl e \<Rightarrow> Some (Inl e, tr @ [CaptchaPoll i])
         | Inr present \<Rightarrow>
             if \<not> present then Some (Inr True, tr @ [CaptchaPoll i, Log INFO CaptchaSolved])
             else if CAPTCHA_CHECK_INTERVAL cfg < 0
             then Some (Inl ValueError,
                        tr @ [CaptchaPoll i] @
                        (if alert_sent then [] else [Notice, Alert keyword]))
             else captcha_wait cfg marker clock keyword (Suc i) True
                    (tr @ [CaptchaPoll i] @ (if alert_sent then [] else [Notice, Alert keyword]) @
                     [Sleep (CAPTCHA_CHECK_INTERVAL cfg), Dot]))
      else Some (Inr False,
                 tr @ [Log ERROR CaptchaTimeout, Log ERROR (AbortingKeyword keyword)]))"

definition handle_captcha ::
  "config \<Rightarrow> (nat \<Rightarrow> exn + bool) \<Rightarrow> (nat \<Rightarrow> real) \<Rightarrow> pystr \<Rightarrow>
   ((exn + bool) \<times> rank_event list) option" where
  "handle_captcha cfg marker clock keyword =
     captcha_wait cfg marker clock keyword 0 False [Log WARNING CaptchaDetected]"

subsection \<open>\_find\_rank\_on\_current\_page\<close>

text \<open>
  A result container as the driver answers about it:
  \<^item> \<open>text_ad\<close>: \<^verbatim>\<open>block.find_elements("[data-text-ad]")\<close>, the number of elements found;
  \<^item> \<open>h3_text\<close>: \<^verbatim>\<open>block.find_element("h3").text\<close>;
  \<^item> \<open>href\<close>: \<^verbatim>\<open>block.find_element(LINK_CONTAINER).get_attribute('href')\<close>,
    \<open>None\<close> when the attribute is absent.
\<close>

record block =
  text_ad :: "exn + nat"
  h3_text :: "exn + pystr"
  href :: "exn + pystr option"

text \<open>
  A results page:
  \<^item> \<open>captcha\<close>: the answers to the successive queries for the reCAPTCHA frame;
  \<^item> \<open>gate_clock\<close>: the readings of the clock by the tests of the gate's loop, when the
    gate is entered on this page;
  \<^item> \<open>container_wait\<close>: the bounded wait for a result container (\<open>None\<close>: one appeared);
  \<^item> \<open>result_blocks\<close>: \<^verbatim>\<open>driver.find_elements(RESULT_CONTAINER)\<close>, in document order;
  \<^item> \<open>next_button\<close>: \<^verbatim>\<open>driver.find_element(NEXT_PAGE_BUTTON)\<close> (\<open>None\<close>: found);
  \<^item> \<open>next_click\<close>: the scripted click on it (\<open>None\<close>: done).
\<close>

record serp =
  captcha :: "nat \<Rightarrow> exn + bool"
  gate_clock :: "nat \<Rightarrow> real"
  container_wait :: "exn option"
  result_blocks :: "exn + block list"
  next_button :: "exn option"
  next_click :: "exn option"

text \<open>The first loop (lines 154--160): a \<open>NoSuchElementException\<close> skips the block, any other
  exception leaves the function through its outer handler.\<close>

fun clean_organic_results :: "block list \<Rightarrow> exn + block list" where
  "clean_organic_results [] = Inr []"
| "clean_organic_results (b # bs) =
     (case text_ad b of
        Inl e \<Rightarrow> if e = NoSuchElementException then clean_organic_results bs else Inl e
      | Inr n \<Rightarrow>
          if 0 < n then clean_organic_results bs
          else
            (case h3_text b of
               Inl e \<Rightarrow> if e = NoSuchElementException then clean_organic_results bs else Inl e
             | Inr t \<Rightarrow>
                 if py_strip t = [] then clean_organic_results bs
                 else (case clean_organic_results bs of
                         Inl e \<Rightarrow> Inl e
                       | Inr rest \<Rightarrow> Inr (b # rest))))"

definition py_enumerate :: "'a list \<Rightarrow> nat \<Rightarrow> (nat \<times> 'a) list" where
  "py_enumerate xs start = zip [start ..< start + length xs] xs"

text \<open>The second loop (lines 162--169) over the numbered organic blocks.\<close>

fun match_loop :: "pystr \<Rightarrow> (nat \<times> block) list \<Rightarrow> exn + (nat \<times> pystr) option" where
  "match_loop target_url [] = Inr None"
| "match_loop target_url ((rank, organic_block) # rest) =
     (case href organic_block of
        Inl e \<Rightarrow> if e = NoSuchElementException then match_loop target_url rest else Inl e
      | Inr None \<Rightarrow> match_loop target_url rest
      | Inr (Some actual_url) \<Rightarrow>
          if actual_url \<noteq> [] \<and> py_in target_url actual_url then Inr (Some (rank, actual_url))
          else match_loop target_url rest)"

definition scan_try :: "serp \<Rightarrow> pystr \<Rightarrow> nat \<Rightarrow> exn + (nat \<times> pystr) option" where
  "scan_try pg target_url rank_offset =
     (case container_wait pg of
        Some e \<Rightarrow> Inl e
      | None \<Rightarrow>
          (case result_blocks pg of
             Inl e \<Rightarrow> Inl e
           | Inr all_potential_blocks \<Rightarrow>
               (case clean_organic_results all_potential_blocks of
                  Inl e \<Rightarrow> Inl e
                | Inr clean \<Rightarrow> match_loop target_url (py_enumerate clean (1 + rank_offset)))))"

definition find_rank_on_current_page ::
  "serp \<Rightarrow> pystr \<Rightarrow> nat \<Rightarrow> (nat option \<times> pystr option) \<times> rank_event list" where
  "find_rank_on_current_page pg target_url rank_offset =
     (case scan_try pg target_url rank_offset of
        Inl e \<Rightarrow> ((None, None), [Log ERROR (ScrapeError e)])
      | Inr None \<Rightarrow> ((None, None), [])
      | Inr (Some (rank, actual_url)) \<Rightarrow>
          ((Some rank, Some actual_url), [Log INFO (MatchFound target_url)]))"

subsection \<open>find\_google\_rank\<close>

text \<open>
  The browser during one search:
  \<^item> \<open>open_search\<close>: \<^verbatim>\<open>driver.get(config.SEARCH_URL)\<close> (\<open>None\<close>: loaded);
  \<^item> \<open>search_box\<close>: the bounded wait for the query input, \<open>Some TimeoutException\<close> when it
    does not appear;
  \<^item> \<open>clear_box\<close>: \<^verbatim>\<open>search_box.clear()\<close> (\<open>None\<close>: done);
  \<^item> \<open>send_key i\<close>: the \<open>i\<close>-th call of \<^verbatim>\<open>send_keys\<close>, one per character of the
    keyword and a last one for the return key (\<open>None\<close>: sent);
  \<^item> \<open>detour_drawn\<close>: \<^verbatim>\<open>random.random() < DETOUR_PROBABILITY\<close>;
  \<^item> \<open>shown i\<close>: the results page in the browser when the loop reads it after \<open>i\<close>
    activations of the next-page control.
  \<open>perform_random_detour\<close> handles every exception itself (lines 132--135); it appears in
  the trace only.
\<close>

record browser =
  open_search :: "exn option"
  search_box :: "exn option"
  clear_box :: "exn option"
  send_key :: "nat \<Rightarrow> exn option"
  detour_drawn :: bool
  shown :: "nat \<Rightarrow> serp"

datatype step = Found pystr pystr | Break | Raised exn | NextPage

text \<open>Lines 212--225: scan the page, return on a match, otherwise try the next-page control.\<close>

definition scan_and_advance ::
  "serp \<Rightarrow> pystr \<Rightarrow> nat \<Rightarrow> nat \<Rightarrow> step \<times> rank_event list" where
  "scan_and_advance pg target_url page_num current_rank_offset =
     (case find_rank_on_current_page pg target_url current_rank_offset of
        ((Some rank_on_page, Some url_on_page), tr) \<Rightarrow>
          (Found (py_str rank_on_page) url_on_page,
           tr @ [Log INFO (FoundAtRank rank_on_page page_num url_on_page)])
      | (_, tr) \<Rightarrow>
          (case next_button pg of
             Some e \<Rightarrow>
               if e = NoSuchElementException
               then (Break, tr @ [NextButtonQuery, Log INFO NoNextButton])
               else (Raised e, tr @ [NextButtonQuery])
           | None \<Rightarrow>
               (case next_click pg of
                  Some e \<Rightarrow>
                    if e = NoSuchElementException
                    then (Break, tr @ [NextButtonQuery, Log INFO MovingToNextPage,
                                       Delay BeforeNextPage, NextClick, Log INFO NoNextButton])
                    else (Raised e, tr @ [NextButtonQuery, Log INFO MovingToNextPage,
                                          Delay BeforeNextPage, NextClick])
                | None \<Rightarrow>
                    (NextPage, tr @ [NextButtonQuery, Log INFO MovingToNextPage,
                                     Delay BeforeNextPage, NextClick]))))"

text \<open>Lines 205--225: one pass of the loop body on the page shown.\<close>

definition scrape_page ::
  "config \<Rightarrow> serp \<Rightarrow> pystr \<Rightarrow> pystr \<Rightarrow> nat \<Rightarrow> nat \<Rightarrow> (step \<times> rank_event list) option" where
  "scrape_page cfg pg keyword target_url page_num current_rank_offset =
     (let t0 = [Log INFO (ScrapingPage page_num keyword), Delay SerpRead, CaptchaPoll 0] in
      case captcha pg 0 of
        Inl e \<Rightarrow> Some (Raised e, t0)
      | Inr present \<Rightarrow>
          if present then
            (case handle_captcha cfg (\<lambda>i. captcha pg (Suc i)) (gate_clock pg) keyword of
               None \<Rightarrow> None
             | Some (Inl e, t1) \<Rightarrow> Some (Raised e, t0 @ t1)
             | Some (Inr solved, t1) \<Rightarrow>
                 if \<not> solved then Some (Break, t0 @ t1)
                 else (case scan_and_advance pg target_url page_num current_rank_offset of
                         (s, t2) \<Rightarrow> Some (s, t0 @ t1 @ t2)))
          else (case scan_and_advance pg target_url page_num current_rank_offset of
                  (s, t2) \<Rightarrow> Some (s, t0 @ t2)))"

text \<open>
  The loop \<^verbatim>\<open>for page_num in range(1, MAX_PAGES_TO_SCRAPE + 1)\<close>, with the number of
  passes left as first argument. \<open>Inr None\<close>: the loop ended without a \<^verbatim>\<open>return\<close>.
\<close>

fun scrape_pages ::
  "nat \<Rightarrow> config \<Rightarrow> browser \<Rightarrow> pystr \<Rightarrow> pystr \<Rightarrow> nat \<Rightarrow> nat \<Rightarrow>
   ((exn + (pystr \<times> pystr) option) \<times> rank_event list) option" where
  "scrape_pages 0 cfg br keyword target_url page_num current_rank_offset = Some (Inr None, [])"
| "scrape_pages (Suc n) cfg br keyword target_url page_num current_rank_offset =
     (case scrape_page cfg (shown br (page_num - 1)) keyword target_url page_num
             current_rank_offset of
        None \<Rightarrow> None
      | Some (Found r url, tr) \<Rightarrow> Some (Inr (Some (r, url)), tr)
      | Some (Break, tr) \<Rightarrow> Some (Inr None, tr)
      | Some (Raised e, tr) \<Rightarrow> Some (Inl e, tr)
      | Some (NextPage, tr) \<Rightarrow>
          (case scrape_pages n cfg br keyword target_url (Suc page_num)
                  (current_rank_offset + 10) of
             None \<Rightarrow> None
           | Some (r, tr') \<Rightarrow> Some (r, tr @ tr')))"

text \<open>
  Lines 194--196: the keyword is typed character by character. A call of
  \<^verbatim>\<open>send_keys\<close> that raises ends the typing, after the characters sent before it.
\<close>

fun type_keyword :: "(nat \<Rightarrow> exn option) \<Rightarrow> nat \<Rightarrow> pystr \<Rightarrow> exn option \<times> rank_event list" where
  "type_keyword keys i [] = (None, [])"
| "type_keyword keys i (char # rest) =
     (case keys i of
        Some e \<Rightarrow> (Some e, [Key char])
      | None \<Rightarrow>
          (case type_keyword keys (Suc i) rest of
             (r, tr) \<Rightarrow> (r, [Key char, Delay Typing] @ tr)))"

text \<open>The body of the \<^verbatim>\<open>try\<close> of \<open>find_google_rank\<close> (lines 189--225), for a page limit.\<close>

definition search_try ::
  "nat \<Rightarrow> config \<Rightarrow> browser \<Rightarrow> pystr \<Rightarrow> pystr \<Rightarrow>
   ((exn + (pystr \<times> pystr) option) \<times> rank_event list) option" where
  "search_try max_pages cfg br keyword target_url =
     (case open_search br of
        Some e \<Rightarrow> Some (Inl e, [Navigate])
      | None \<Rightarrow>
          (case search_box br of
             Some e \<Rightarrow> Some (Inl e, [Navigate, Delay AfterPageLoad, WaitSearchBox])
           | None \<Rightarrow>
               (case clear_box br of
                  Some e \<Rightarrow> Some (Inl e, [Navigate, Delay AfterPageLoad, WaitSearchBox])
                | None \<Rightarrow>
                    (case type_keyword (send_key br) 0 keyword of
                       (Some e, t1) \<Rightarrow>
                         Some (Inl e, [Navigate, Delay AfterPageLoad, WaitSearchBox] @ t1)
                     | (None, t1) \<Rightarrow>
                         (case send_key br (length keyword) of
                            Some e \<Rightarrow>
                              Some (Inl e, [Navigate, Delay AfterPageLoad, WaitSearchBox] @ t1 @
                                           [Submit])
                          | None \<Rightarrow>
                              (let t0 = [Navigate, Delay AfterPageLoad, WaitSearchBox] @ t1 @
                                        [Submit, Delay AfterPageLoad] @
                                        (if detour_drawn br then [Detour] else []) in
                               case scrape_pages max_pages cfg br keyword target_url 1 0 of
                                 None \<Rightarrow> None
                               | Some (r, tr) \<Rightarrow> Some (r, t0 @ tr)))))))"

text \<open>The handlers (lines 227--233) and the final \<^verbatim>\<open>return "Not Found", ""\<close>.\<close>

definition find_google_rank_upto ::
  "nat \<Rightarrow> config \<Rightarrow> browser \<Rightarrow> pystr \<Rightarrow> pystr \<Rightarrow> ((pystr \<times> pystr) \<times> rank_event list) option" where
  "find_google_rank_upto max_pages cfg br keyword target_url =
     (case search_try max_pages cfg br keyword target_url of
        None \<Rightarrow> None
      | Some (Inr (Some found), tr) \<Rightarrow> Some (found, tr)
      | Some (Inr None, tr) \<Rightarrow>
          Some ((lit ''Not Found'', []), tr @ [Log INFO (FinishedNotFound keyword)])
      | Some (Inl e, tr) \<Rightarrow>
          Some ((lit ''Not Found'', []),
                tr @ [Log ERROR (if e = TimeoutException then SearchBoxNotFound keyword
                                 else UnexpectedError keyword e),
                      Log INFO (FinishedNotFound keyword)]))"

definition find_google_rank ::
  "config \<Rightarrow> browser \<Rightarrow> pystr \<Rightarrow> pystr \<Rightarrow> ((pystr \<times> pystr) \<times> rank_event list) option" where
  "find_google_rank = find_google_rank_upto MAX_PAGES_TO_SCRAPE"

section \<open>Notions of the specification about result blocks\<close>

text \<open>
  A block is flagged as an advertisement when the ad marker is found in it, and lacks a
  heading when it has no \<^verbatim>\<open>h3\<close> or one whose text is empty after stripping. A block is
  settled when the driver answers every query about it: the query for the ad marker, which
  returns a list, raises nothing, and the queries for the heading and for the link raise
  nothing but a missing element. The link of a block fails when the link element is missing or its
  \<^verbatim>\<open>href\<close> is null; a block is a hit when its link has a non-empty \<^verbatim>\<open>href\<close> that
  contains the target. A block raises in the first loop when the query for the ad marker,
  or the query for the heading of a block without ad marker, raises another exception than
  a missing element; its link raises when the query for the link does.
\<close>

definition flagged_ad :: "block \<Rightarrow> bool" where
  "flagged_ad b = (case text_ad b of Inl _ \<Rightarrow> False | Inr n \<Rightarrow> 0 < n)"

definition lacks_heading :: "block \<Rightarrow> bool" where
  "lacks_heading b =
     (case h3_text b of Inl e \<Rightarrow> e = NoSuchElementException | Inr t \<Rightarrow> py_strip t = [])"

definition organic :: "block \<Rightarrow> bool" where
  "organic b \<longleftrightarrow> \<not> flagged_ad b \<and> \<not> lacks_heading b"

definition settled :: "block \<Rightarrow> bool" where
  "settled b \<longleftrightarrow>
     (case text_ad b of Inl _ \<Rightarrow> False | Inr _ \<Rightarrow> True) \<and>
     (case h3_text b of Inl e \<Rightarrow> e = NoSuchElementException | Inr _ \<Rightarrow> True) \<and>
     (case href b of Inl e \<Rightarrow> e = NoSuchElementException | Inr _ \<Rightarrow> True)"


definition link_raises :: "block \<Rightarrow> bool" where
  "link_raises b = (case href b of Inl e \<Rightarrow> e \<noteq> NoSuchElementException | Inr h \<Rightarrow> False)"

definition link_fails :: "block \<Rightarrow> bool" where
  "link_fails b \<longleftrightarrow> href b = Inl NoSuchElementException \<or> href b = Inr None"

definition hit :: "pystr \<Rightarrow> block \<Rightarrow> bool" where
  "hit target_url b =
     (case href b of
        Inr (Some actual_url) \<Rightarrow> actual_url \<noteq> [] \<and> py_in target_url actual_url
      | _ \<Rightarrow> False)"

text \<open>Result blocks and pages for concrete instances.\<close>

definition result_block :: "nat \<Rightarrow> exn + pystr \<Rightarrow> exn + pystr option \<Rightarrow> block" where
  "result_block ads heading link = \<lparr>text_ad = Inr ads, h3_text = heading, href = link\<rparr>"

definition results_page :: "block list \<Rightarrow> exn option \<Rightarrow> serp" where
  "results_page bs button =
     \<lparr>captcha = (\<lambda>i. Inr False), gate_clock = (\<lambda>i. 5 * real i), container_wait = None,
      result_blocks = Inr bs,
      next_button = button, next_click = None\<rparr>"

definition sample_blocks :: "block list" where
  "sample_blocks =
     [result_block 1 (Inr (lit ''Sponsored'')) (Inr (Some (lit ''http://ads.example.com/buy''))),
      result_block 0 (Inl NoSuchElementException) (Inr (Some (lit ''http://www.example.com/''))),
      result_block 0 (Inr (lit ''  '')) (Inr (Some (lit ''http://m.example.com/''))),
      result_block 0 (Inr (lit ''Other shop'')) (Inr (Some (lit ''http://other.com''))),
      result_block 0 (Inr (lit ''Broken entry'')) (Inl NoSuchElementException),
      result_block 0 (Inr (lit ''No address'')) (Inr None),
      result_block 0 (Inr (lit ''Example shop'')) (Inr (Some (lit ''http://foo.example.com/x''))),
      result_block 0 (Inr (lit ''Example home'')) (Inr (Some (lit ''http://example.com'')))]"




section \<open>Reading a trace\<close>

text \<open>The queries for the reCAPTCHA frame in a trace, in order, and a configuration for
  concrete instances.\<close>

fun polls :: "rank_event list \<Rightarrow> nat list" where
  "polls [] = []"
| "polls (CaptchaPoll i # es) = i # polls es"
| "polls (e # es) = polls es"

definition sample_config :: config where
  "sample_config = \<lparr>CAPTCHA_WAIT_TIMEOUT = 600, CAPTCHA_CHECK_INTERVAL = 5\<rparr>"

text \<open>A browser with two results pages, the target on the second one only.\<close>

definition sample_browser :: "exn option \<Rightarrow> (nat \<Rightarrow> serp) \<Rightarrow> browser" where
  "sample_browser box pages =
     \<lparr>open_search = None, search_box = box, clear_box = None, send_key = (\<lambda>i. None),
      detour_drawn = False,
      shown = pages\<rparr>"

definition two_pages :: "nat \<Rightarrow> serp" where
  "two_pages i =
     (if i = 0
      then results_page
             [result_block 0 (Inr (lit ''Other shop'')) (Inr (Some (lit ''http://other.com'')))]
             None
      else results_page
             [result_block 0 (Inr (lit ''Red shoes'')) (Inr (Some (lit ''http://shop.example/red'')))]
             (Some NoSuchElementException))"

section \<open>The audit funnel\<close>

lemma analyze_first_match:
  "analyze_myntra_page rt d keyword start_url =
     first_match (audit_rules rt) d [Logged INFO (AnalysisStart keyword)]"
  by (simp add: analyze_myntra_page_def audit_rules_def Let_def split: prod.splits)

lemma status_result_dict: "result_dict s v ''status'' = Some (lit s)"
  by (simp add: result_dict_def)

lemma value_result_dict: "result_dict s v ''value'' = Some (lit v)"
  by (simp add: result_dict_def)

lemma lit_inject: "lit a = lit b \<longleftrightarrow> a = b"
  unfolding lit_def by (simp add: inj_map_eq_map inj_on_def)

lemma analyze_status_cases:
  "\<exists>s v. s \<in> set CATEGORIES \<and> fst (analyze_myntra_page rt d keyword start_url) = result_dict s v"
  by (auto simp add: analyze_myntra_page_def CATEGORIES_def Let_def split: prod.splits)

lemma deletion_present:
  "deletion_els d = Inr n \<Longrightarrow> 0 < n \<Longrightarrow>
   analyze_myntra_page rt d keyword start_url =
     (result_dict ''Deletion'' ''Yes'',
      [Logged INFO (AnalysisStart keyword), Probe DeletionProbe, Logged WARNING DeletionFound])"
  by (simp add: analyze_myntra_page_def check_for_deletion_def)


text \<open>
  Claim C1. The funnel is the ordered decision list of the spec: \<open>analyze_myntra_page\<close>
  computes what \<open>first_match\<close> computes on the four rules, in the order deletion, title and
  meta, product count, content, and its trace holds the checks up to the first rule that
  fired and no later one. Every audit has exactly one of the five categories. A page with
  the no-results indicator is a Deletion whatever its title is, and neither the title nor
  the description is queried.
\<close>
theorem audit_funnel_first_match:
  "analyze_myntra_page rt d keyword start_url =
     first_match (audit_rules rt) d [Logged INFO (AnalysisStart keyword)]
   \<and> (\<exists>!s. s \<in> set CATEGORIES \<and>
          fst (analyze_myntra_page rt d keyword start_url) ''status'' = Some (lit s))
   \<and> (\<forall>n. deletion_els d = Inr n \<and> 0 < n \<longrightarrow>
          fst (analyze_myntra_page rt d keyword start_url) ''status'' = Some (lit ''Deletion'')
          \<and> Probe TitleProbe \<notin> set (snd (analyze_myntra_page rt d keyword start_url))
          \<and> Probe MetaProbe \<notin> set (snd (analyze_myntra_page rt d keyword start_url)))"
proof (intro conjI allI impI)
  show "analyze_myntra_page rt d keyword start_url =
     first_match (audit_rules rt) d [Logged INFO (AnalysisStart keyword)]"
    by (rule analyze_first_match)
next
  obtain s v where sv: "s \<in> set CATEGORIES"
      "fst (analyze_myntra_page rt d keyword start_url) = result_dict s v"
    using analyze_status_cases by blast
  show "\<exists>!s. s \<in> set CATEGORIES \<and>
          fst (analyze_myntra_page rt d keyword start_url) ''status'' = Some (lit s)"
  proof (rule ex1I [of _ s])
    show "s \<in> set CATEGORIES \<and>
          fst (analyze_myntra_page rt d keyword start_url) ''status'' = Some (lit s)"
      using sv by (simp add: status_result_dict)
  next
    fix s' assume "s' \<in> set CATEGORIES \<and>
          fst (analyze_myntra_page rt d keyword start_url) ''status'' = Some (lit s')"
    then show "s' = s" using sv by (simp add: status_result_dict lit_inject)
  qed
next
  fix n assume h: "deletion_els d = Inr n \<and> 0 < n"
  then have eq: "analyze_myntra_page rt d keyword start_url =
     (result_dict ''Deletion'' ''Yes'',
      [Logged INFO (AnalysisStart keyword), Probe DeletionProbe, Logged WARNING DeletionFound])"
    by (simp add: deletion_present)
  show "fst (analyze_myntra_page rt d keyword start_url) ''status'' = Some (lit ''Deletion'')"
    by (simp add: eq status_result_dict)
  show "Probe TitleProbe \<notin> set (snd (analyze_myntra_page rt d keyword start_url))"
    by (simp add: eq)
  show "Probe MetaProbe \<notin> set (snd (analyze_myntra_page rt d keyword start_url))"
    by (simp add: eq)
qed

theorem audit_funnel_first_match_witness:
  "deletion_els (sample_page 1 44 150 (Inr (lit ''20 items'')) (Inr (words 300))) = Inr 1
   \<and> fst (check_for_tm_optimization (sample_page 1 44 150 (Inr (lit ''20 items'')) (Inr (words 300))))
   \<and> fst (analyze_myntra_page sample_runtime (sample_page 1 44 150 (Inr (lit ''20 items'')) (Inr (words 300)))
            (lit ''red shoes'') (lit ''https://www.myntra.com/red-shoes'')) ''status''
       = Some (lit ''Deletion'')
   \<and> Probe TitleProbe \<notin> set (snd (analyze_myntra_page sample_runtime
            (sample_page 1 44 150 (Inr (lit ''20 items'')) (Inr (words 300)))
            (lit ''red shoes'') (lit ''https://www.myntra.com/red-shoes'')))"
proof -
  let ?d = "sample_page 1 44 150 (Inr (lit ''20 items'')) (Inr (words 300))"
  have h: "deletion_els ?d = Inr 1 \<and> 0 < (1::nat)"
    by (simp add: sample_page_def)
  have tm: "fst (check_for_tm_optimization ?d)"
    by (simp add: sample_page_def check_for_tm_optimization_def PLACEHOLDER_def)
  note funnel = audit_funnel_first_match
          [of sample_runtime ?d "lit ''red shoes''" "lit ''https://www.myntra.com/red-shoes''"]
  from funnel h tm show ?thesis by blast
qed

text \<open>
  Claim C3 as stated fails: on a page with the no-results indicator, audited for the keyword
  "red shoes", the category is Deletion and the value returned is not the keyword.
\<close>
theorem deletion_value_counterexample:
  "deletion_els (sample_page 1 50 150 (Inr (lit ''20 items'')) (Inr (words 300))) = Inr 1
   \<and> fst (analyze_myntra_page sample_runtime (sample_page 1 50 150 (Inr (lit ''20 items'')) (Inr (words 300)))
            (lit ''red shoes'') (lit ''https://www.myntra.com/red-shoes'')) ''status''
       = Some (lit ''Deletion'')
   \<and> fst (analyze_myntra_page sample_runtime (sample_page 1 50 150 (Inr (lit ''20 items'')) (Inr (words 300)))
            (lit ''red shoes'') (lit ''https://www.myntra.com/red-shoes'')) ''value''
       \<noteq> Some (lit ''red shoes'')"
  by (simp add: sample_page_def deletion_present status_result_dict value_result_dict lit_inject)

text \<open>
  Claim C3, amended. When the no-results indicator is present the funnel returns the category
  Deletion with the value "Yes"; the keyword is what the caller then writes into the deletion
  cell (column 5) of the row.
\<close>
theorem deletion_value_is_yes:
  "deletion_els d = Inr n \<Longrightarrow> 0 < n \<Longrightarrow>
     fst (analyze_myntra_page rt d keyword start_url) ''status'' = Some (lit ''Deletion'') \<and>
     fst (analyze_myntra_page rt d keyword start_url) ''value'' = Some (lit ''Yes'') \<and>
     write_analysis_result (fst (analyze_myntra_page rt d keyword start_url)) keyword start_url 5
       = Some keyword"
  by (simp add: deletion_present status_result_dict value_result_dict write_analysis_result_def)

theorem deletion_value_is_yes_witness:
  "deletion_els (sample_page 1 50 150 (Inr (lit ''20 items'')) (Inr (words 300))) = Inr 1
   \<and> fst (analyze_myntra_page sample_runtime (sample_page 1 50 150 (Inr (lit ''20 items'')) (Inr (words 300)))
            (lit ''red shoes'') (lit ''https://www.myntra.com/red-shoes'')) ''value''
       = Some (lit ''Yes'')
   \<and> write_analysis_result
        (fst (analyze_myntra_page sample_runtime (sample_page 1 50 150 (Inr (lit ''20 items'')) (Inr (words 300)))
            (lit ''red shoes'') (lit ''https://www.myntra.com/red-shoes'')))
        (lit ''red shoes'') (lit ''https://www.myntra.com/red-shoes'') 5 = Some (lit ''red shoes'')"
proof -
  have h: "deletion_els (sample_page 1 50 150 (Inr (lit ''20 items'')) (Inr (words 300))) = Inr 1"
    by (simp add: sample_page_def)
  show ?thesis
    using h deletion_value_is_yes [OF h, of sample_runtime "lit ''red shoes''"
        "lit ''https://www.myntra.com/red-shoes''"]
    by simp
qed

lemma split_acc_words: "split_acc [] (words n) = replicate n [97]"
proof (induction n)
  case 0
  show ?case by (simp add: words_def)
next
  case (Suc n)
  have "split_acc [] (words (Suc n)) = [97] # split_acc [] (words n)"
    by (simp add: words_def py_isspace_def)
  then show ?case using Suc by simp
qed

lemma word_count_words: "length (py_split (words n)) = n"
  by (simp add: py_split_def split_acc_words)

lemma tm_title_bounds:
  "title d = Inr t \<Longrightarrow> t \<noteq> [] \<Longrightarrow> meta_desc d = Inr (Some m) \<Longrightarrow> PLACEHOLDER \<notin> set m \<Longrightarrow>
   145 \<le> length m \<Longrightarrow> length m \<le> 165 \<Longrightarrow>
   fst (check_for_tm_optimization d) \<longleftrightarrow> length t < 45 \<or> 70 < length t"
  by (auto simp add: check_for_tm_optimization_def)

lemma tm_meta_bounds:
  "title d = Inr t \<Longrightarrow> 45 \<le> length t \<Longrightarrow> length t \<le> 70 \<Longrightarrow> meta_desc d = Inr (Some m) \<Longrightarrow>
   PLACEHOLDER \<notin> set m \<Longrightarrow>
   fst (check_for_tm_optimization d) \<longleftrightarrow> length m < 145 \<or> 165 < length m"
  by (auto simp add: check_for_tm_optimization_def)

lemma count_bound:
  "count_text d = Inr counter \<Longrightarrow> re_search_digits rt (remove_commas counter) = Some ds \<Longrightarrow>
   py_int rt ds = Inr n \<Longrightarrow>
   fst (is_product_count_sufficient rt d) \<longleftrightarrow> 13 \<le> n"
  by (auto simp add: is_product_count_sufficient_def)

lemma content_bound:
  "seo_text d = Inr body \<Longrightarrow>
   fst (check_for_content_optimization d) \<longleftrightarrow> length (py_split body) < 250"
  by (auto simp add: check_for_content_optimization_def Let_def)

text \<open>
  Claim C7. The bounds of the checks are inclusive: with the other conditions of the title
  and meta check met, the check reports an issue exactly when the title length is below 45
  or above 70, and exactly when the description length is below 145 or above 165; a product
  count parsed from the counter is sufficient exactly from 13 on, whatever digits the
  runtime reads it from; the content check reports an issue exactly when the block has
  fewer than 250 words.
\<close>
theorem audit_thresholds:
  "(title d = Inr t \<and> t \<noteq> [] \<and> meta_desc d = Inr (Some m) \<and> PLACEHOLDER \<notin> set m \<and>
      145 \<le> length m \<and> length m \<le> 165
      \<longrightarrow> (fst (check_for_tm_optimization d) \<longleftrightarrow> length t < 45 \<or> 70 < length t))
   \<and> (title d = Inr t \<and> 45 \<le> length t \<and> length t \<le> 70 \<and> meta_desc d = Inr (Some m) \<and>
      PLACEHOLDER \<notin> set m
      \<longrightarrow> (fst (check_for_tm_optimization d) \<longleftrightarrow> length m < 145 \<or> 165 < length m))
   \<and> (count_text d = Inr counter \<and> re_search_digits rt (remove_commas counter) = Some ds \<and>
      py_int rt ds = Inr n
      \<longrightarrow> (fst (is_product_count_sufficient rt d) \<longleftrightarrow> 13 \<le> n))
   \<and> (seo_text d = Inr body
      \<longrightarrow> (fst (check_for_content_optimization d) \<longleftrightarrow> length (py_split body) < 250))"
  using tm_title_bounds [of d t m] tm_meta_bounds [of d t m] count_bound [of d counter rt ds n]
    content_bound [of d body]
  by blast

lemma sample_digits:
  "is_digit sample_runtime c \<longleftrightarrow> (48 \<le> c \<and> c \<le> 57) \<or> (1632 \<le> c \<and> c \<le> 1641)"
  by (simp add: is_digit_def sample_runtime_def)

lemma search_13:
  "re_search_digits sample_runtime (remove_commas (lit '' - 13 items'')) = Some (lit ''13'')"
  by (simp add: re_search_digits_def remove_commas_def lit_def sample_digits)

lemma search_12:
  "re_search_digits sample_runtime (remove_commas (lit '' - 12 items'')) = Some (lit ''12'')"
  by (simp add: re_search_digits_def remove_commas_def lit_def sample_digits)

lemma search_1234:
  "re_search_digits sample_runtime (remove_commas (lit '' - 1,234 items'')) = Some (lit ''1234'')"
  by (simp add: re_search_digits_def remove_commas_def lit_def sample_digits)

lemma search_arabic_13:
  "re_search_digits sample_runtime (remove_commas (1633 # 1635 # lit '' of 5''))
     = Some [1633, 1635]"
  by (simp add: re_search_digits_def remove_commas_def lit_def sample_digits)

lemma int_13:
  "py_int sample_runtime (lit ''13'') = Inr 13"
  "py_int sample_runtime (lit ''12'') = Inr 12"
  "py_int sample_runtime (lit ''1234'') = Inr 1234"
  "py_int sample_runtime [1633, 1635] = Inr 13"
  by (simp_all add: py_int_def digit_value_def lit_def sample_runtime_def)

lemma int_too_long:
  "max_str_digits rt = 4300 \<Longrightarrow> length ds = 4301 \<Longrightarrow> py_int rt ds = Inl ValueError"
  by (simp add: py_int_def)

theorem audit_thresholds_witness:
  "\<not> fst (check_for_tm_optimization (sample_page 0 45 150 (Inr (lit '' - 13 items'')) (Inr (words 250))))
   \<and> \<not> fst (check_for_tm_optimization (sample_page 0 70 150 (Inr (lit '' - 13 items'')) (Inr (words 250))))
   \<and> fst (check_for_tm_optimization (sample_page 0 44 150 (Inr (lit '' - 13 items'')) (Inr (words 250))))
   \<and> fst (check_for_tm_optimization (sample_page 0 71 150 (Inr (lit '' - 13 items'')) (Inr (words 250))))
   \<and> \<not> fst (check_for_tm_optimization (sample_page 0 45 145 (Inr (lit '' - 13 items'')) (Inr (words 250))))
   \<and> \<not> fst (check_for_tm_optimization (sample_page 0 45 165 (Inr (lit '' - 13 items'')) (Inr (words 250))))
   \<and> fst (check_for_tm_optimization (sample_page 0 45 144 (Inr (lit '' - 13 items'')) (Inr (words 250))))
   \<and> fst (check_for_tm_optimization (sample_page 0 45 166 (Inr (lit '' - 13 items'')) (Inr (words 250))))
   \<and> fst (is_product_count_sufficient sample_runtime
            (sample_page 0 45 150 (Inr (lit '' - 13 items'')) (Inr (words 250))))
   \<and> \<not> fst (is_product_count_sufficient sample_runtime
            (sample_page 0 45 150 (Inr (lit '' - 12 items'')) (Inr (words 250))))
   \<and> fst (is_product_count_sufficient sample_runtime
            (sample_page 0 45 150 (Inr (1633 # 1635 # lit '' of 5'')) (Inr (words 250))))
   \<and> \<not> fst (check_for_content_optimization (sample_page 0 45 150 (Inr (lit '' - 13 items'')) (Inr (words 250))))
   \<and> fst (check_for_content_optimization (sample_page 0 45 150 (Inr (lit '' - 13 items'')) (Inr (words 249))))"
proof -
  let ?c13 = "lit '' - 13 items''" and ?c12 = "lit '' - 12 items''"
  let ?ca = "1633 # 1635 # lit '' of 5''"
  let ?a = "\<lambda>n. replicate n (97::nat)"
  note facts = sample_page_def PLACEHOLDER_def search_13 search_12 search_arabic_13 int_13
    word_count_words
  have t45: "\<not> fst (check_for_tm_optimization (sample_page 0 45 150 (Inr ?c13) (Inr (words 250))))"
    using audit_thresholds [where d = "sample_page 0 45 150 (Inr ?c13) (Inr (words 250))"
        and t = "?a 45" and m = "?a 150"]
    by (simp add: facts)
  have t70: "\<not> fst (check_for_tm_optimization (sample_page 0 70 150 (Inr ?c13) (Inr (words 250))))"
    using audit_thresholds [where d = "sample_page 0 70 150 (Inr ?c13) (Inr (words 250))"
        and t = "?a 70" and m = "?a 150"]
    by (simp add: facts)
  have t44: "fst (check_for_tm_optimization (sample_page 0 44 150 (Inr ?c13) (Inr (words 250))))"
    using audit_thresholds [where d = "sample_page 0 44 150 (Inr ?c13) (Inr (words 250))"
        and t = "?a 44" and m = "?a 150"]
    by (simp add: facts)
  have t71: "fst (check_for_tm_optimization (sample_page 0 71 150 (Inr ?c13) (Inr (words 250))))"
    using audit_thresholds [where d = "sample_page 0 71 150 (Inr ?c13) (Inr (words 250))"
        and t = "?a 71" and m = "?a 150"]
    by (simp add: facts)
  have m145: "\<not> fst (check_for_tm_optimization (sample_page 0 45 145 (Inr ?c13) (Inr (words 250))))"
    using audit_thresholds [where d = "sample_page 0 45 145 (Inr ?c13) (Inr (words 250))"
        and t = "?a 45" and m = "?a 145"]
    by (simp add: facts)
  have m165: "\<not> fst (check_for_tm_optimization (sample_page 0 45 165 (Inr ?c13) (Inr (words 250))))"
    using audit_thresholds [where d = "sample_page 0 45 165 (Inr ?c13) (Inr (words 250))"
        and t = "?a 45" and m = "?a 165"]
    by (simp add: facts)
  have m144: "fst (check_for_tm_optimization (sample_page 0 45 144 (Inr ?c13) (Inr (words 250))))"
    using audit_thresholds [where d = "sample_page 0 45 144 (Inr ?c13) (Inr (words 250))"
        and t = "?a 45" and m = "?a 144"]
    by (simp add: facts)
  have m166: "fst (check_for_tm_optimization (sample_page 0 45 166 (Inr ?c13) (Inr (words 250))))"
    using audit_thresholds [where d = "sample_page 0 45 166 (Inr ?c13) (Inr (words 250))"
        and t = "?a 45" and m = "?a 166"]
    by (simp add: facts)
  have c13: "fst (is_product_count_sufficient sample_runtime
                (sample_page 0 45 150 (Inr ?c13) (Inr (words 250))))"
    using audit_thresholds [where d = "sample_page 0 45 150 (Inr ?c13) (Inr (words 250))"
        and rt = sample_runtime and counter = ?c13 and ds = "lit ''13''" and n = 13]
    by (simp add: facts)
  have c12: "\<not> fst (is_product_count_sufficient sample_runtime
                (sample_page 0 45 150 (Inr ?c12) (Inr (words 250))))"
    using audit_thresholds [where d = "sample_page 0 45 150 (Inr ?c12) (Inr (words 250))"
        and rt = sample_runtime and counter = ?c12 and ds = "lit ''12''" and n = 12]
    by (simp add: facts)
  have ca: "fst (is_product_count_sufficient sample_runtime
                (sample_page 0 45 150 (Inr ?ca) (Inr (words 250))))"
    using audit_thresholds [where d = "sample_page 0 45 150 (Inr ?ca) (Inr (words 250))"
        and rt = sample_runtime and counter = ?ca and ds = "[1633, 1635]" and n = 13]
    by (simp add: facts)
  have w250: "\<not> fst (check_for_content_optimization (sample_page 0 45 150 (Inr ?c13) (Inr (words 250))))"
    using audit_thresholds [where d = "sample_page 0 45 150 (Inr ?c13) (Inr (words 250))"
        and body = "words 250"]
    by (simp add: facts)
  have w249: "fst (check_for_content_optimization (sample_page 0 45 150 (Inr ?c13) (Inr (words 249))))"
    using audit_thresholds [where d = "sample_page 0 45 150 (Inr ?c13) (Inr (words 249))"
        and body = "words 249"]
    by (simp add: facts)
  from t45 t70 t44 t71 m145 m165 m144 m166 c13 c12 ca w250 w249 show ?thesis by blast
qed

text \<open>
  Claim C8 as stated fails: an error in the product-count check that is not a missing element
  makes the check fail, and the page is a Low Product Count.
\<close>
theorem extraction_error_counterexample:
  "count_text (sample_page 0 45 150 (Inl WebDriverException) (Inr (words 250)))
     = Inl WebDriverException
   \<and> \<not> fst (is_product_count_sufficient sample_runtime
              (sample_page 0 45 150 (Inl WebDriverException) (Inr (words 250))))
   \<and> fst (analyze_myntra_page sample_runtime (sample_page 0 45 150 (Inl WebDriverException) (Inr (words 250)))
            (lit ''red shoes'') (lit ''https://www.myntra.com/red-shoes'')) ''status''
       = Some (lit ''Low Product Count'')"
  by (simp add: sample_page_def is_product_count_sufficient_def analyze_myntra_page_def
      check_for_deletion_def check_for_tm_optimization_def PLACEHOLDER_def status_result_dict)

text \<open>
  Claim C8, amended. An error raised inside a check is logged and the check passes, in the
  deletion check, in the title and meta check and in the content check, unless the error is
  a missing element: a missing description tag fails the title and meta check and a missing
  content block fails the content check. In the product-count check every error, a missing
  element or any other, counts as an insufficient count.
\<close>
theorem extraction_errors_by_check:
  "(deletion_els d = Inl e \<longrightarrow>
      check_for_deletion d = (False, [Probe DeletionProbe, Logged ERROR (DeletionError e)]))
   \<and> (title d = Inl e \<longrightarrow>
      check_for_tm_optimization d = (False, [Probe TitleProbe, Logged ERROR (TMError e)]))
   \<and> (title d = Inr t \<and> t \<noteq> [] \<and> meta_desc d = Inl e \<longrightarrow>
      check_for_tm_optimization d =
        (if e = NoSuchElementException
         then (True, [Probe TitleProbe, Probe MetaProbe, Logged WARNING MetaMissing])
         else (False, [Probe TitleProbe, Probe MetaProbe, Logged ERROR (TMError e)])))
   \<and> (count_text d = Inl e \<longrightarrow>
      is_product_count_sufficient rt d =
        (False, [Probe CountProbe,
                 if e = NoSuchElementException then Logged WARNING CountMissing
                 else Logged ERROR (CountError e)]))
   \<and> (seo_text d = Inl e \<longrightarrow>
      check_for_content_optimization d =
        (if e = NoSuchElementException
         then (True, [Probe SeoProbe, Logged WARNING ContentMissing])
         else (False, [Probe SeoProbe, Logged ERROR (ContentError e)])))"
  by (simp add: check_for_deletion_def check_for_tm_optimization_def
      is_product_count_sufficient_def check_for_content_optimization_def)

theorem extraction_errors_by_check_witness:
  "check_for_deletion \<lparr>deletion_els = Inl WebDriverException, title = Inl WebDriverException,
       meta_desc = Inl WebDriverException, count_text = Inl WebDriverException,
       seo_text = Inl WebDriverException\<rparr>
     = (False, [Probe DeletionProbe, Logged ERROR (DeletionError WebDriverException)])
   \<and> check_for_tm_optimization \<lparr>deletion_els = Inl WebDriverException,
       title = Inl WebDriverException, meta_desc = Inl WebDriverException,
       count_text = Inl WebDriverException, seo_text = Inl WebDriverException\<rparr>
     = (False, [Probe TitleProbe, Logged ERROR (TMError WebDriverException)])
   \<and> is_product_count_sufficient sample_runtime \<lparr>deletion_els = Inl WebDriverException,
       title = Inl WebDriverException, meta_desc = Inl WebDriverException,
       count_text = Inl WebDriverException, seo_text = Inl WebDriverException\<rparr>
     = (False, [Probe CountProbe, Logged ERROR (CountError WebDriverException)])
   \<and> check_for_content_optimization \<lparr>deletion_els = Inl WebDriverException,
       title = Inl WebDriverException, meta_desc = Inl WebDriverException,
       count_text = Inl WebDriverException, seo_text = Inl WebDriverException\<rparr>
     = (False, [Probe SeoProbe, Logged ERROR (ContentError WebDriverException)])
   \<and> fst (check_for_tm_optimization (sample_page 0 45 150 (Inr []) (Inr [])
            \<lparr>meta_desc := Inl NoSuchElementException\<rparr>))"
proof -
  let ?d = "\<lparr>deletion_els = Inl WebDriverException, title = Inl WebDriverException,
       meta_desc = Inl WebDriverException, count_text = Inl WebDriverException,
       seo_text = Inl WebDriverException\<rparr>"
  let ?m = "sample_page 0 45 150 (Inr []) (Inr []) \<lparr>meta_desc := Inl NoSuchElementException\<rparr>"
  have a: "fst (check_for_tm_optimization ?m)"
    using extraction_errors_by_check
      [where d = ?m and e = NoSuchElementException and t = "replicate 45 97"
         and rt = sample_runtime]
    by (simp add: sample_page_def)
  show ?thesis
    using a extraction_errors_by_check
      [where d = ?d and e = WebDriverException and t = "[]" and rt = sample_runtime]
    by simp
qed

section \<open>The result scanner\<close>


lemma clean_step:
  "settled b \<Longrightarrow>
   clean_organic_results (b # bs) =
     (if organic b
      then (case clean_organic_results bs of Inl e \<Rightarrow> Inl e | Inr rest \<Rightarrow> Inr (b # rest))
      else clean_organic_results bs)"
  by (auto simp add: settled_def organic_def flagged_ad_def lacks_heading_def split: sum.splits)

lemma clean_settled:
  "\<forall>b\<in>set bs. settled b \<Longrightarrow> clean_organic_results bs = Inr (filter organic bs)"
proof (induction bs)
  case Nil
  show ?case by simp
next
  case (Cons b bs)
  then have ih: "clean_organic_results bs = Inr (filter organic bs)" by simp
  from Cons.prems have sb: "settled b" by simp
  show ?case
    by (simp only: clean_step [OF sb] ih) simp
qed

lemma py_enumerate_Nil: "py_enumerate [] start = []"
  by (simp add: py_enumerate_def)

lemma py_enumerate_Cons: "py_enumerate (x # xs) start = (start, x) # py_enumerate xs (Suc start)"
  by (simp add: py_enumerate_def upt_rec)



lemma match_loop_skip_failed:
  "match_loop target_url rs = match_loop target_url (filter (\<lambda>(r, b). \<not> link_fails b) rs)"
proof (induction rs)
  case Nil
  show ?case by simp
next
  case (Cons p rs)
  obtain r b where p: "p = (r, b)" by (cases p)
  show ?case
  proof (cases "link_fails b")
    case True
    then have "match_loop target_url (p # rs) = match_loop target_url rs"
      by (auto simp add: p link_fails_def)
    with True Cons show ?thesis by (simp add: p)
  next
    case False
    then show ?thesis
      using Cons by (simp add: p split: sum.splits option.splits)
  qed
qed

lemma match_loop_first_hit:
  "\<forall>c\<in>set pre. settled c \<and> \<not> hit target_url c \<Longrightarrow> hit target_url b \<Longrightarrow>
   href b = Inr (Some u) \<Longrightarrow>
   match_loop target_url (py_enumerate (pre @ b # post) start) = Inr (Some (start + length pre, u))"
proof (induction pre arbitrary: start)
  case Nil
  then show ?case by (simp add: py_enumerate_Cons hit_def)
next
  case (Cons c pre)
  from Cons.prems have c: "settled c" "\<not> hit target_url c" by simp_all
  have "match_loop target_url (py_enumerate ((c # pre) @ b # post) start) =
        match_loop target_url (py_enumerate (pre @ b # post) (Suc start))"
    using c by (auto simp add: py_enumerate_Cons settled_def hit_def split: sum.splits option.splits)
  also have "\<dots> = Inr (Some (Suc start + length pre, u))"
    using Cons by simp
  finally show ?case by simp
qed



lemma scan_try_settled:
  "container_wait pg = None \<Longrightarrow> result_blocks pg = Inr bs \<Longrightarrow> \<forall>b\<in>set bs. settled b \<Longrightarrow>
   scan_try pg target_url off = match_loop target_url (py_enumerate (filter organic bs) (1 + off))"
  by (simp add: scan_try_def clean_settled)


lemma sample_blocks_settled: "\<forall>b\<in>set sample_blocks. settled b"
  by (simp add: sample_blocks_def result_block_def settled_def)

lemma sample_blocks_all: "list_all settled sample_blocks"
  using sample_blocks_settled by (simp add: list_all_iff)

lemma sample_blocks_organic: "filter organic sample_blocks = drop 3 sample_blocks"
  by (simp add: sample_blocks_def result_block_def organic_def flagged_ad_def lacks_heading_def
      py_strip_def py_isspace_def lit_def)


lemma scan_found:
  "scan_try pg target_url off = Inr (Some (r, u)) \<Longrightarrow>
   fst (find_rank_on_current_page pg target_url off) = (Some r, Some u)"
  by (simp add: find_rank_on_current_page_def)


lemma sample_page_fields:
  "container_wait (results_page bs button) = None"
  "result_blocks (results_page bs button) = Inr bs"
  by (simp_all add: results_page_def)

lemma sample_organic_split:
  "filter organic sample_blocks
     = [sample_blocks ! 3, sample_blocks ! 4, sample_blocks ! 5] @ sample_blocks ! 6 # [sample_blocks ! 7]"
  by (simp add: sample_blocks_organic) (simp add: sample_blocks_def)

lemma sample_links:
  "href (sample_blocks ! 3) = Inr (Some (lit ''http://other.com''))"
  "href (sample_blocks ! 4) = Inl NoSuchElementException"
  "href (sample_blocks ! 5) = Inr None"
  "href (sample_blocks ! 6) = Inr (Some (lit ''http://foo.example.com/x''))"
  "href (sample_blocks ! 7) = Inr (Some (lit ''http://example.com''))"
  by (simp_all add: sample_blocks_def result_block_def)

lemma sample_containment:
  "py_in (lit ''example.com'') (lit ''http://foo.example.com/x'')"
  "\<not> py_in (lit ''example.com'') (lit ''http://other.com'')"
  "\<not> py_in (lit ''nowhere.org'') (lit ''http://other.com'')"
  "\<not> py_in (lit ''nowhere.org'') (lit ''http://foo.example.com/x'')"
  "\<not> py_in (lit ''nowhere.org'') (lit ''http://example.com'')"
  by (simp_all add: lit_def)





lemma settled_no_raise: "settled c \<Longrightarrow> \<not> link_raises c"
  by (auto simp add: settled_def link_raises_def split: sum.splits)

lemma match_loop_settled:
  "\<forall>c\<in>set xs. settled c \<Longrightarrow> \<exists>r. match_loop target_url (py_enumerate xs start) = Inr r"
proof (induction xs arbitrary: start)
  case Nil
  show ?case by (simp add: py_enumerate_Nil)
next
  case (Cons c xs)
  then have "\<exists>r. match_loop target_url (py_enumerate xs (Suc start)) = Inr r" by simp
  moreover from Cons.prems have "settled c" by simp
  ultimately show ?case
    by (auto simp add: py_enumerate_Cons settled_def split: sum.splits option.splits)
qed













lemma py_enumerate_nth:
  "py_enumerate (pre @ b # post) start ! length pre = (start + length pre, b)"
  by (simp add: py_enumerate_def nth_append)

text \<open>
  Claim C10. Ranks are fixed by the position in the organic list before any link is read:
  matching over the numbered list gives the same result as matching over the numbered list
  with the blocks whose link fails removed afterwards; the block after \<open>pre\<close> has the number
  \<open>start + length pre\<close> whatever the links of \<open>pre\<close> are; and a match after blocks whose
  link fails or does not contain the target is reported with that number.
\<close>
theorem rank_fixed_before_link_extraction:
  "match_loop target_url (py_enumerate org start)
     = match_loop target_url (filter (\<lambda>(r, b). \<not> link_fails b) (py_enumerate org start))
   \<and> py_enumerate (pre @ b # post) start ! length pre = (start + length pre, b)
   \<and> (container_wait pg = None \<and> result_blocks pg = Inr bs \<and> (\<forall>c\<in>set bs. settled c) \<and>
      filter organic bs = pre @ b # post \<and>
      (\<forall>c\<in>set pre. link_fails c \<or> \<not> hit target_url c) \<and>
      href b = Inr (Some u) \<and> u \<noteq> [] \<and> py_in target_url u
      \<longrightarrow> fst (find_rank_on_current_page pg target_url off)
            = (Some (off + 1 + length pre), Some u))"
proof (intro conjI impI)
  show "match_loop target_url (py_enumerate org start)
     = match_loop target_url (filter (\<lambda>(r, b). \<not> link_fails b) (py_enumerate org start))"
    by (rule match_loop_skip_failed)
  show "py_enumerate (pre @ b # post) start ! length pre = (start + length pre, b)"
    by (rule py_enumerate_nth)
  assume h: "container_wait pg = None \<and> result_blocks pg = Inr bs \<and> (\<forall>c\<in>set bs. settled c) \<and>
      filter organic bs = pre @ b # post \<and>
      (\<forall>c\<in>set pre. link_fails c \<or> \<not> hit target_url c) \<and>
      href b = Inr (Some u) \<and> u \<noteq> [] \<and> py_in target_url u"
  then have scan: "scan_try pg target_url off
        = match_loop target_url (py_enumerate (pre @ b # post) (1 + off))"
    using scan_try_settled [of pg bs target_url off] by simp
  from h have "\<forall>c\<in>set bs. settled c" by blast
  then have "\<forall>c\<in>set (filter organic bs). settled c" by simp
  then have "\<forall>c\<in>set pre. settled c" using h by simp
  moreover have "\<forall>c\<in>set pre. \<not> hit target_url c"
    using h by (auto simp add: link_fails_def hit_def)
  ultimately have pre: "\<forall>c\<in>set pre. settled c \<and> \<not> hit target_url c" by blast
  have b: "hit target_url b" using h by (simp add: hit_def)
  have "match_loop target_url (py_enumerate (pre @ b # post) (1 + off))
          = Inr (Some (1 + off + length pre, u))"
    using pre b h by (intro match_loop_first_hit) auto
  then have "scan_try pg target_url off = Inr (Some (off + 1 + length pre, u))"
    using scan by simp
  then show "fst (find_rank_on_current_page pg target_url off)
            = (Some (off + 1 + length pre), Some u)"
    by (rule scan_found)
qed

theorem rank_fixed_before_link_extraction_witness:
  "container_wait (results_page sample_blocks None) = None
   \<and> result_blocks (results_page sample_blocks None) = Inr sample_blocks
   \<and> list_all settled sample_blocks
   \<and> link_fails (sample_blocks ! 4) \<and> link_fails (sample_blocks ! 5)
   \<and> fst (find_rank_on_current_page (results_page sample_blocks None) (lit ''example.com'') 10)
       = (Some 14, Some (lit ''http://foo.example.com/x''))"
proof -
  let ?pg = "results_page sample_blocks None"
  note a = sample_page_fields(1) [of sample_blocks None]
  note b = sample_page_fields(2) [of sample_blocks None]
  note c = sample_blocks_settled
  have f: "link_fails (sample_blocks ! 4)" "link_fails (sample_blocks ! 5)"
    by (simp_all add: link_fails_def sample_links)
  have n: "\<not> hit (lit ''example.com'') (sample_blocks ! 3)"
    by (simp add: hit_def sample_links sample_containment)
  have "fst (find_rank_on_current_page ?pg (lit ''example.com'') 10)
       = (Some (10 + 1 + length [sample_blocks ! 3, sample_blocks ! 4, sample_blocks ! 5]),
          Some (lit ''http://foo.example.com/x''))"
    using rank_fixed_before_link_extraction
      [of "lit ''example.com''" "[]" 0
          "[sample_blocks ! 3, sample_blocks ! 4, sample_blocks ! 5]" "sample_blocks ! 6"
          "[sample_blocks ! 7]" ?pg sample_blocks "lit ''http://foo.example.com/x''" 10,
       THEN conjunct2, THEN conjunct2]
      a b c f n
    by (simp add: sample_organic_split sample_links sample_containment) (simp add: lit_def)
  with a b sample_blocks_all f show ?thesis by simp
qed

section \<open>The CAPTCHA gate\<close>

lemma polls_append: "polls (a @ b) = polls a @ polls b"
  by (induction a rule: polls.induct) simp_all

lemma captcha_wait_solved:
  "\<forall>j<k. marker (i + j) = Inr True \<Longrightarrow> marker (i + k) = Inr False \<Longrightarrow>
   \<forall>j\<le>k. clock (i + j) < CAPTCHA_WAIT_TIMEOUT cfg \<Longrightarrow> 0 \<le> CAPTCHA_CHECK_INTERVAL cfg \<Longrightarrow>
   \<exists>tr'. captcha_wait cfg marker clock keyword i alert_sent tr
            = Some (Inr True, tr' @ [Log INFO CaptchaSolved]) \<and>
         polls tr' = polls tr @ [i ..< i + Suc k]"
proof (induction k arbitrary: i alert_sent tr)
  case 0
  then have "clock i < CAPTCHA_WAIT_TIMEOUT cfg" "marker i = Inr False" by simp_all
  then have "captcha_wait cfg marker clock keyword i alert_sent tr
        = Some (Inr True, (tr @ [CaptchaPoll i]) @ [Log INFO CaptchaSolved])"
    by (subst captcha_wait.simps) simp
  moreover have "polls (tr @ [CaptchaPoll i]) = polls tr @ [i ..< i + Suc 0]"
    by (simp add: polls_append)
  ultimately show ?case by blast
next
  case (Suc k)
  let ?iv = "CAPTCHA_CHECK_INTERVAL cfg"
  let ?tr = "tr @ [CaptchaPoll i] @ (if alert_sent then [] else [Notice, Alert keyword]) @
             [Sleep ?iv, Dot]"
  from Suc.prems(1) have here: "marker i = Inr True" by (metis add.right_neutral zero_less_Suc)
  from Suc.prems(3) have now: "clock i < CAPTCHA_WAIT_TIMEOUT cfg"
    by (metis add.right_neutral le0)
  have step: "captcha_wait cfg marker clock keyword i alert_sent tr
        = captcha_wait cfg marker clock keyword (Suc i) True ?tr"
    using here now Suc.prems(4) by (subst captcha_wait.simps) simp
  have a: "\<forall>j<k. marker (Suc i + j) = Inr True"
    using Suc.prems(1) by (metis Suc_less_eq add_Suc add_Suc_right)
  have b: "marker (Suc i + k) = Inr False" using Suc.prems(2) by simp
  have c: "\<forall>j\<le>k. clock (Suc i + j) < CAPTCHA_WAIT_TIMEOUT cfg"
    using Suc.prems(3) by (metis Suc_le_mono add_Suc add_Suc_right)
  from Suc.IH [OF a b c Suc.prems(4), of True ?tr] obtain tr' where
    r: "captcha_wait cfg marker clock keyword (Suc i) True ?tr
          = Some (Inr True, tr' @ [Log INFO CaptchaSolved])"
    and p: "polls tr' = polls ?tr @ [Suc i ..< Suc i + Suc k]" by blast
  have "polls ?tr = polls tr @ [i]" by (simp add: polls_append)
  then have "polls tr' = polls tr @ [i ..< i + Suc (Suc k)]"
    using p by (simp add: upt_rec [of i])
  with r step show ?case by auto
qed

lemma captcha_wait_timeout:
  "CAPTCHA_WAIT_TIMEOUT cfg \<le> clock (i + n) \<Longrightarrow>
   \<forall>j<n. clock (i + j) < CAPTCHA_WAIT_TIMEOUT cfg \<Longrightarrow>
   \<forall>j<n. marker (i + j) = Inr True \<Longrightarrow> 0 \<le> CAPTCHA_CHECK_INTERVAL cfg \<Longrightarrow>
   \<exists>tr'. captcha_wait cfg marker clock keyword i alert_sent tr
            = Some (Inr False, tr' @ [Log ERROR CaptchaTimeout,
                                      Log ERROR (AbortingKeyword keyword)]) \<and>
         polls tr' = polls tr @ [i ..< i + n] \<and>
         (Log ERROR CaptchaTimeout \<in> set tr' \<longrightarrow> Log ERROR CaptchaTimeout \<in> set tr)"
proof (induction n arbitrary: i alert_sent tr)
  case 0
  then have "\<not> clock i < CAPTCHA_WAIT_TIMEOUT cfg" by simp
  then have "captcha_wait cfg marker clock keyword i alert_sent tr
      = Some (Inr False, tr @ [Log ERROR CaptchaTimeout, Log ERROR (AbortingKeyword keyword)])"
    by (subst captcha_wait.simps) simp
  moreover have "polls tr = polls tr @ [i ..< i + 0]" by simp
  ultimately show ?case by blast
next
  case (Suc n)
  let ?iv = "CAPTCHA_CHECK_INTERVAL cfg"
  let ?tr = "tr @ [CaptchaPoll i] @ (if alert_sent then [] else [Notice, Alert keyword]) @
             [Sleep ?iv, Dot]"
  from Suc.prems(3) have here: "marker i = Inr True" by (metis add.right_neutral zero_less_Suc)
  from Suc.prems(2) have now: "clock i < CAPTCHA_WAIT_TIMEOUT cfg"
    by (metis add.right_neutral zero_less_Suc)
  have step: "captcha_wait cfg marker clock keyword i alert_sent tr
        = captcha_wait cfg marker clock keyword (Suc i) True ?tr"
    using here now Suc.prems(4) by (subst captcha_wait.simps) simp
  have a: "CAPTCHA_WAIT_TIMEOUT cfg \<le> clock (Suc i + n)" using Suc.prems(1) by simp
  have b: "\<forall>j<n. clock (Suc i + j) < CAPTCHA_WAIT_TIMEOUT cfg"
    using Suc.prems(2) by (metis Suc_less_eq add_Suc add_Suc_right)
  have c: "\<forall>j<n. marker (Suc i + j) = Inr True"
    using Suc.prems(3) by (metis Suc_less_eq add_Suc add_Suc_right)
  from Suc.IH [OF a b c Suc.prems(4), of True ?tr] obtain tr' where
    r: "captcha_wait cfg marker clock keyword (Suc i) True ?tr
          = Some (Inr False, tr' @ [Log ERROR CaptchaTimeout,
                                    Log ERROR (AbortingKeyword keyword)])"
    and p: "polls tr' = polls ?tr @ [Suc i ..< Suc i + n]"
    and o: "Log ERROR CaptchaTimeout \<in> set tr' \<longrightarrow> Log ERROR CaptchaTimeout \<in> set ?tr"
    by blast
  have "polls ?tr = polls tr @ [i]" by (simp add: polls_append)
  then have p': "polls tr' = polls tr @ [i ..< i + Suc n]"
    using p by (simp add: upt_rec [of i])
  have o': "Log ERROR CaptchaTimeout \<in> set tr' \<longrightarrow> Log ERROR CaptchaTimeout \<in> set tr"
    using o by (auto split: if_splits)
  from step r p' o' show ?case by metis
qed

lemma captcha_wait_returns:
  "CAPTCHA_WAIT_TIMEOUT cfg \<le> clock n \<Longrightarrow> i \<le> n \<Longrightarrow>
   \<exists>r. captcha_wait cfg marker clock keyword i alert_sent tr = Some r"
proof (induction "n - i" arbitrary: i alert_sent tr)
  case 0
  then have "i = n" by simp
  with 0 have "\<not> clock i < CAPTCHA_WAIT_TIMEOUT cfg" by simp
  then show ?case by (subst captcha_wait.simps) simp
next
  case (Suc m)
  show ?case
  proof (cases "clock i < CAPTCHA_WAIT_TIMEOUT cfg \<and> marker i = Inr True \<and>
                \<not> CAPTCHA_CHECK_INTERVAL cfg < 0")
    case False
    then show ?thesis
      by (subst captcha_wait.simps) (auto split: sum.splits)
  next
    case True
    let ?tr = "tr @ [CaptchaPoll i] @ (if alert_sent then [] else [Notice, Alert keyword]) @
               [Sleep (CAPTCHA_CHECK_INTERVAL cfg), Dot]"
    have step: "captcha_wait cfg marker clock keyword i alert_sent tr
          = captcha_wait cfg marker clock keyword (Suc i) True ?tr"
      using True by (subst captcha_wait.simps) simp
    have m: "m = n - Suc i" and le: "Suc i \<le> n" using Suc.hyps(2) by simp_all
    from Suc.hyps(1) [OF m Suc.prems(1) le, of True ?tr] step show ?thesis by simp
  qed
qed

lemma first_absent_poll:
  fixes marker :: "nat \<Rightarrow> exn + bool"
  assumes "marker k = Inr False" and "\<forall>j<k. \<exists>b. marker j = Inr b"
  shows "\<exists>k'\<le>k. marker k' = Inr False \<and> (\<forall>j<k'. marker j = (Inr True :: exn + bool))"
proof -
  let ?k = "LEAST i. marker i = Inr False"
  have le: "?k \<le> k"
    using Least_le [of "\<lambda>i. marker i = Inr False" k] assms(1) by simp
  have here: "marker ?k = Inr False"
    using LeastI [of "\<lambda>i. marker i = Inr False" k] assms(1) by simp
  have "\<forall>j<?k. marker j = Inr True"
  proof (intro allI impI)
    fix j assume j: "j < ?k"
    then have "marker j \<noteq> Inr False"
      using not_less_Least [of j "\<lambda>i. marker i = Inr False"] by simp
    moreover from j le assms(2) obtain b where "marker j = Inr b" by (meson less_le_trans)
    ultimately show "marker j = Inr True" by (cases b) simp_all
  qed
  with le here show ?thesis by blast
qed

text \<open>
  Claim C5. The timeout is measured on the wall clock, as the loop test reads it. If the
  marker is gone at some poll, no earlier poll raised and every loop test up to that poll
  found the timeout not yet elapsed, the gate returns true, at the first poll that finds
  the marker gone. If the marker is there at every poll made before the first loop test that
  finds the timeout elapsed, the gate returns false: its trace ends with the timeout
  records, logged once, and every poll lies before them. The interval is not negative
  (\<^verbatim>\<open>time.sleep\<close> rejects a negative length); it may be zero.
\<close>
theorem captcha_gate_outcomes:
  "(marker k = Inr False \<and> (\<forall>j<k. \<exists>b. marker j = Inr b) \<and>
      (\<forall>j\<le>k. clock j < CAPTCHA_WAIT_TIMEOUT cfg) \<and> 0 \<le> CAPTCHA_CHECK_INTERVAL cfg
      \<longrightarrow> (\<exists>tr k'. k' \<le> k \<and>
                handle_captcha cfg marker clock keyword
                    = Some (Inr True, tr @ [Log INFO CaptchaSolved]) \<and>
                polls tr = [0 ..< Suc k']))
   \<and> (CAPTCHA_WAIT_TIMEOUT cfg \<le> clock n \<and> (\<forall>j<n. clock j < CAPTCHA_WAIT_TIMEOUT cfg) \<and>
      (\<forall>j<n. marker j = Inr True) \<and> 0 \<le> CAPTCHA_CHECK_INTERVAL cfg
      \<longrightarrow> (\<exists>tr. handle_captcha cfg marker clock keyword
                      = Some (Inr False, tr @ [Log ERROR CaptchaTimeout,
                                               Log ERROR (AbortingKeyword keyword)]) \<and>
                  polls tr = [0 ..< n] \<and>
                  Log ERROR CaptchaTimeout \<notin> set tr))"
proof (intro conjI impI)
  assume h: "marker k = Inr False \<and> (\<forall>j<k. \<exists>b. marker j = Inr b) \<and>
      (\<forall>j\<le>k. clock j < CAPTCHA_WAIT_TIMEOUT cfg) \<and> 0 \<le> CAPTCHA_CHECK_INTERVAL cfg"
  then obtain k' where k': "k' \<le> k" "marker k' = Inr False" "\<forall>j<k'. marker j = Inr True"
    using first_absent_poll [of marker k] by blast
  have within: "\<forall>j\<le>k'. clock j < CAPTCHA_WAIT_TIMEOUT cfg"
    using h k'(1) by (meson le_trans)
  have "\<exists>tr'. captcha_wait cfg marker clock keyword 0 False [Log WARNING CaptchaDetected]
            = Some (Inr True, tr' @ [Log INFO CaptchaSolved]) \<and>
         polls tr' = polls [Log WARNING CaptchaDetected] @ [0 ..< 0 + Suc k']"
    using k' within h by (intro captcha_wait_solved) simp_all
  then show "\<exists>tr k'. k' \<le> k \<and>
                handle_captcha cfg marker clock keyword
                    = Some (Inr True, tr @ [Log INFO CaptchaSolved]) \<and>
                polls tr = [0 ..< Suc k']"
    using k'(1) by (auto simp add: handle_captcha_def)
next
  assume h: "CAPTCHA_WAIT_TIMEOUT cfg \<le> clock n \<and> (\<forall>j<n. clock j < CAPTCHA_WAIT_TIMEOUT cfg) \<and>
      (\<forall>j<n. marker j = Inr True) \<and> 0 \<le> CAPTCHA_CHECK_INTERVAL cfg"
  have "\<exists>tr'. captcha_wait cfg marker clock keyword 0 False [Log WARNING CaptchaDetected]
            = Some (Inr False, tr' @ [Log ERROR CaptchaTimeout,
                                      Log ERROR (AbortingKeyword keyword)]) \<and>
         polls tr' = polls [Log WARNING CaptchaDetected] @ [0 ..< 0 + n] \<and>
         (Log ERROR CaptchaTimeout \<in> set tr'
            \<longrightarrow> Log ERROR CaptchaTimeout \<in> set [Log WARNING CaptchaDetected])"
    using h by (intro captcha_wait_timeout) simp_all
  then show "\<exists>tr. handle_captcha cfg marker clock keyword
                      = Some (Inr False, tr @ [Log ERROR CaptchaTimeout,
                                               Log ERROR (AbortingKeyword keyword)]) \<and>
                  polls tr = [0 ..< n] \<and>
                  Log ERROR CaptchaTimeout \<notin> set tr"
    by (simp add: handle_captcha_def)
qed

theorem captcha_gate_outcomes_witness:
  "map_option fst (handle_captcha sample_config (\<lambda>i. Inr (i < 3)) (\<lambda>i. 5 * real i)
       (lit ''red shoes''))
     = Some (Inr True)
   \<and> map_option fst (handle_captcha \<lparr>CAPTCHA_WAIT_TIMEOUT = 2, CAPTCHA_CHECK_INTERVAL = 1\<rparr>
       (\<lambda>i. Inr (i < 1)) (\<lambda>i. 11 / 5 * real i) (lit ''red shoes''))
     = Some (Inr False)
   \<and> map_option fst (handle_captcha \<lparr>CAPTCHA_WAIT_TIMEOUT = 2, CAPTCHA_CHECK_INTERVAL = 0\<rparr>
       (\<lambda>i. Inr True) (\<lambda>i. 6 / 5 * real i) (lit ''red shoes''))
     = Some (Inr False)"
proof -
  let ?slow = "\<lparr>CAPTCHA_WAIT_TIMEOUT = 2, CAPTCHA_CHECK_INTERVAL = 1\<rparr>"
  let ?busy = "\<lparr>CAPTCHA_WAIT_TIMEOUT = 2, CAPTCHA_CHECK_INTERVAL = 0\<rparr>"
  have a: "(Inr (7 < (3::nat)) :: exn + bool) = Inr False \<and>
      (\<forall>j<7. \<exists>b. (Inr (j < 3) :: exn + bool) = Inr b) \<and>
      (\<forall>j\<le>7. 5 * real j < CAPTCHA_WAIT_TIMEOUT sample_config) \<and>
      0 \<le> CAPTCHA_CHECK_INTERVAL sample_config"
    by (auto simp add: sample_config_def)
  have b: "CAPTCHA_WAIT_TIMEOUT ?slow \<le> 11 / 5 * real (1::nat) \<and>
      (\<forall>j<1. 11 / 5 * real j < CAPTCHA_WAIT_TIMEOUT ?slow) \<and>
      (\<forall>j<1. (Inr (j < 1) :: exn + bool) = Inr True) \<and> 0 \<le> CAPTCHA_CHECK_INTERVAL ?slow"
    by simp
  have c: "CAPTCHA_WAIT_TIMEOUT ?busy \<le> 6 / 5 * real (2::nat) \<and>
      (\<forall>j<2. 6 / 5 * real j < CAPTCHA_WAIT_TIMEOUT ?busy) \<and>
      (\<forall>j<2. (Inr True :: exn + bool) = Inr True) \<and> 0 \<le> CAPTCHA_CHECK_INTERVAL ?busy"
  proof -
    have "\<forall>j<2::nat. j = 0 \<or> j = 1" by auto
    then show ?thesis by auto
  qed
  from captcha_gate_outcomes
      [where marker = "\<lambda>i. Inr (i < 3)" and k = 7 and clock = "\<lambda>i. 5 * real i"
         and cfg = sample_config and keyword = "lit ''red shoes''",
       THEN conjunct1, THEN mp, OF a]
  have solved: "map_option fst (handle_captcha sample_config (\<lambda>i. Inr (i < 3)) (\<lambda>i. 5 * real i)
       (lit ''red shoes'')) = Some (Inr True)"
    by auto
  from captcha_gate_outcomes
      [where marker = "\<lambda>i. Inr (i < 1)" and n = 1 and clock = "\<lambda>i. 11 / 5 * real i"
         and cfg = ?slow and keyword = "lit ''red shoes''",
       THEN conjunct2, THEN mp, OF b]
  have slow: "map_option fst (handle_captcha ?slow (\<lambda>i. Inr (i < 1)) (\<lambda>i. 11 / 5 * real i)
       (lit ''red shoes'')) = Some (Inr False)"
    by auto
  from captcha_gate_outcomes
      [where marker = "\<lambda>i. Inr True" and n = 2 and clock = "\<lambda>i. 6 / 5 * real i"
         and cfg = ?busy and keyword = "lit ''red shoes''",
       THEN conjunct2, THEN mp, OF c]
  have busy: "map_option fst (handle_captcha ?busy (\<lambda>i. Inr True) (\<lambda>i. 6 / 5 * real i)
       (lit ''red shoes'')) = Some (Inr False)"
    by auto
  from solved slow busy show ?thesis by simp
qed

lemma captcha_short_run:
  "handle_captcha \<lparr>CAPTCHA_WAIT_TIMEOUT = 10, CAPTCHA_CHECK_INTERVAL = 5\<rparr> (\<lambda>i. Inr True)
       (\<lambda>i. 6 * real i) []
     = Some (Inr False,
         [Log WARNING CaptchaDetected, CaptchaPoll 0, Notice, Alert [], Sleep 5, Dot,
          CaptchaPoll 1, Sleep 5, Dot,
          Log ERROR CaptchaTimeout, Log ERROR (AbortingKeyword [])])"
  by (simp add: handle_captcha_def captcha_wait.simps)

lemma captcha_negative_interval:
  "CAPTCHA_CHECK_INTERVAL cfg < 0 \<Longrightarrow> clock 0 < CAPTCHA_WAIT_TIMEOUT cfg \<Longrightarrow>
   marker 0 = Inr True \<Longrightarrow>
   handle_captcha cfg marker clock keyword
     = Some (Inl ValueError, [Log WARNING CaptchaDetected, CaptchaPoll 0, Notice, Alert keyword])"
  unfolding handle_captcha_def by (subst captcha_wait.simps) simp

section \<open>The rank search\<close>

lemma handle_captcha_returns:
  "\<exists>n. CAPTCHA_WAIT_TIMEOUT cfg \<le> clock n \<Longrightarrow>
   \<exists>r. handle_captcha cfg marker clock keyword = Some r"
  unfolding handle_captcha_def using captcha_wait_returns [of cfg clock _ 0] by blast

lemma scrape_page_returns:
  assumes "\<exists>n. CAPTCHA_WAIT_TIMEOUT cfg \<le> gate_clock pg n"
  shows "\<exists>r. scrape_page cfg pg keyword target_url page_num off = Some r"
proof -
  obtain r where "handle_captcha cfg (\<lambda>i. captcha pg (Suc i)) (gate_clock pg) keyword = Some r"
    using handle_captcha_returns [OF assms] by blast
  then show ?thesis
    by (cases r) (auto simp add: scrape_page_def Let_def split: sum.splits prod.splits)
qed

lemma scrape_pages_returns:
  assumes "\<forall>i. \<exists>n. CAPTCHA_WAIT_TIMEOUT cfg \<le> gate_clock (shown br i) n"
  shows "\<exists>r. scrape_pages n cfg br keyword target_url page_num off = Some r"
proof (induction n arbitrary: page_num off)
  case 0
  show ?case by simp
next
  case (Suc n)
  have "\<exists>n. CAPTCHA_WAIT_TIMEOUT cfg \<le> gate_clock (shown br (page_num - 1)) n"
    using assms by blast
  then obtain s tr where
    s: "scrape_page cfg (shown br (page_num - 1)) keyword target_url page_num off = Some (s, tr)"
    using scrape_page_returns by (metis surj_pair)
  obtain r where r: "scrape_pages n cfg br keyword target_url (Suc page_num) (off + 10) = Some r"
    using Suc by blast
  show ?case
    using s r by (cases s; cases r) simp_all
qed

lemma search_try_returns:
  assumes "\<forall>i. \<exists>n. CAPTCHA_WAIT_TIMEOUT cfg \<le> gate_clock (shown br i) n"
  shows "\<exists>r. search_try n cfg br keyword target_url = Some r"
proof -
  obtain r where "scrape_pages n cfg br keyword target_url 1 0 = Some r"
    using scrape_pages_returns [OF assms] by blast
  then show ?thesis
    by (cases r) (auto simp add: search_try_def Let_def split: option.splits prod.splits)
qed

lemma find_google_rank_upto_returns:
  assumes "\<forall>i. \<exists>n. CAPTCHA_WAIT_TIMEOUT cfg \<le> gate_clock (shown br i) n"
  shows "\<exists>res tr. find_google_rank_upto n cfg br keyword target_url = Some (res, tr)"
proof -
  obtain r tr where "search_try n cfg br keyword target_url = Some (r, tr)"
    using search_try_returns [OF assms] by (metis surj_pair)
  then show ?thesis
    by (auto simp add: find_google_rank_upto_def split: sum.splits option.splits)
qed

lemma typed_all:
  "\<forall>j<length w. keys (k + j) = None \<Longrightarrow>
   type_keyword keys k w = (None, concat (map (\<lambda>c. [Key c, Delay Typing]) w))"
proof (induction w arbitrary: k)
  case Nil
  show ?case by simp
next
  case (Cons c w)
  from Cons.prems have here: "keys k = None" by (metis add.right_neutral length_greater_0_conv list.distinct(1))
  have "\<forall>j<length w. keys (Suc k + j) = None"
    using Cons.prems by (metis Suc_less_eq add_Suc add_Suc_right length_Cons)
  then have "type_keyword keys (Suc k) w = (None, concat (map (\<lambda>c. [Key c, Delay Typing]) w))"
    by (rule Cons.IH)
  with here show ?case by simp
qed

lemma typed_raise:
  "i < length w \<Longrightarrow> keys (k + i) = Some e \<Longrightarrow> \<forall>j<i. keys (k + j) = None \<Longrightarrow>
   type_keyword keys k w
     = (Some e, concat (map (\<lambda>c. [Key c, Delay Typing]) (take i w)) @ [Key (w ! i)])"
proof (induction w arbitrary: k i)
  case Nil
  then show ?case by simp
next
  case (Cons c w)
  show ?case
  proof (cases i)
    case 0
    with Cons.prems show ?thesis by simp
  next
    case (Suc i')
    from Cons.prems(3) Suc have here: "keys k = None" by (metis add.right_neutral zero_less_Suc)
    have a: "i' < length w" using Cons.prems(1) Suc by simp
    have b: "keys (Suc k + i') = Some e" using Cons.prems(2) Suc by simp
    have c: "\<forall>j<i'. keys (Suc k + j) = None"
      using Cons.prems(3) Suc by (metis Suc_less_eq add_Suc add_Suc_right)
    from Cons.IH [OF a b c] here Suc show ?thesis by simp
  qed
qed

lemma raised_not_found:
  "search_try n cfg br keyword target_url = Some (Inl e, tr) \<Longrightarrow>
   find_google_rank_upto n cfg br keyword target_url =
     Some ((lit ''Not Found'', []),
           tr @ [Log ERROR (if e = TimeoutException then SearchBoxNotFound keyword
                            else UnexpectedError keyword e),
                 Log INFO (FinishedNotFound keyword)])"
  by (simp add: find_google_rank_upto_def)

lemma early_raise:
  "open_search br = Some e \<or>
   (open_search br = None \<and> search_box br = Some e) \<or>
   (open_search br = None \<and> search_box br = None \<and> clear_box br = Some e) \<Longrightarrow>
   \<exists>tr. search_try n cfg br keyword target_url = Some (Inl e, tr)"
  by (auto simp add: search_try_def)

lemma key_raise:
  assumes "open_search br = None" and "search_box br = None" and "clear_box br = None"
    and "i \<le> length keyword" and "send_key br i = Some e" and "\<forall>j<i. send_key br j = None"
  shows "\<exists>tr. search_try n cfg br keyword target_url = Some (Inl e, tr)"
proof (cases "i < length keyword")
  case True
  have "type_keyword (send_key br) 0 keyword
     = (Some e, concat (map (\<lambda>c. [Key c, Delay Typing]) (take i keyword)) @ [Key (keyword ! i)])"
    using True assms(5,6) by (intro typed_raise) simp_all
  then show ?thesis using assms(1-3) by (simp add: search_try_def)
next
  case False
  with assms(4) have i: "i = length keyword" by simp
  have "type_keyword (send_key br) 0 keyword
     = (None, concat (map (\<lambda>c. [Key c, Delay Typing]) keyword))"
    using assms(6) i by (intro typed_all) simp
  then show ?thesis using assms(1-3,5) i by (simp add: search_try_def)
qed

lemma first_poll_raise:
  "open_search br = None \<Longrightarrow> search_box br = None \<Longrightarrow> clear_box br = None \<Longrightarrow>
   \<forall>i\<le>length keyword. send_key br i = None \<Longrightarrow> captcha (shown br 0) 0 = Inl e \<Longrightarrow>
   \<exists>tr. search_try (Suc n) cfg br keyword target_url = Some (Inl e, tr)"
  by (simp add: search_try_def scrape_page_def Let_def typed_all)

text \<open>
  Claim C9. Whatever exception leaves the body of the search, the search returns
  \<open>("Not Found", "")\<close> and logs the exception as an error; a timeout on the query input is
  such a case, as are an exception of the navigation, of clearing the input, of any
  keystroke or of the first query for the reCAPTCHA frame. The search has no exceptional
  result: when the clock of the CAPTCHA gate reaches the timeout on every page, it returns
  a pair for every browser and every page limit.
\<close>
theorem rank_search_contains_failures:
  "(search_try n cfg br keyword target_url = Some (Inl e, tr) \<longrightarrow>
      find_google_rank_upto n cfg br keyword target_url =
        Some ((lit ''Not Found'', []),
              tr @ [Log ERROR (if e = TimeoutException then SearchBoxNotFound keyword
                               else UnexpectedError keyword e),
                    Log INFO (FinishedNotFound keyword)]))
   \<and> (open_search br = None \<and> search_box br = Some TimeoutException \<longrightarrow>
      find_google_rank cfg br keyword target_url =
        Some ((lit ''Not Found'', []),
              [Navigate, Delay AfterPageLoad, WaitSearchBox,
               Log ERROR (SearchBoxNotFound keyword), Log INFO (FinishedNotFound keyword)]))
   \<and> (open_search br = Some e \<or>
      (open_search br = None \<and> search_box br = Some e) \<or>
      (open_search br = None \<and> search_box br = None \<and> clear_box br = Some e) \<or>
      (open_search br = None \<and> search_box br = None \<and> clear_box br = None \<and>
         (\<exists>i\<le>length keyword. send_key br i = Some e \<and> (\<forall>j<i. send_key br j = None))) \<or>
      (open_search br = None \<and> search_box br = None \<and> clear_box br = None \<and>
         (\<forall>i\<le>length keyword. send_key br i = None) \<and> captcha (shown br 0) 0 = Inl e) \<longrightarrow>
      (\<exists>tr'. find_google_rank cfg br keyword target_url =
         Some ((lit ''Not Found'', []),
               tr' @ [Log ERROR (if e = TimeoutException then SearchBoxNotFound keyword
                                 else UnexpectedError keyword e),
                      Log INFO (FinishedNotFound keyword)])))
   \<and> ((\<forall>i. \<exists>m. CAPTCHA_WAIT_TIMEOUT cfg \<le> gate_clock (shown br i) m) \<longrightarrow>
      (\<exists>res tr'. find_google_rank_upto n cfg br keyword target_url = Some (res, tr')))"
proof (intro conjI impI)
  assume "search_try n cfg br keyword target_url = Some (Inl e, tr)"
  then show "find_google_rank_upto n cfg br keyword target_url =
        Some ((lit ''Not Found'', []),
              tr @ [Log ERROR (if e = TimeoutException then SearchBoxNotFound keyword
                               else UnexpectedError keyword e),
                    Log INFO (FinishedNotFound keyword)])"
    by (rule raised_not_found)
next
  assume "open_search br = None \<and> search_box br = Some TimeoutException"
  then have "search_try MAX_PAGES_TO_SCRAPE cfg br keyword target_url
      = Some (Inl TimeoutException, [Navigate, Delay AfterPageLoad, WaitSearchBox])"
    by (simp add: search_try_def)
  from raised_not_found [OF this]
  show "find_google_rank cfg br keyword target_url =
        Some ((lit ''Not Found'', []),
              [Navigate, Delay AfterPageLoad, WaitSearchBox,
               Log ERROR (SearchBoxNotFound keyword), Log INFO (FinishedNotFound keyword)])"
    by (simp add: find_google_rank_def)
next
  assume h: "open_search br = Some e \<or>
      (open_search br = None \<and> search_box br = Some e) \<or>
      (open_search br = None \<and> search_box br = None \<and> clear_box br = Some e) \<or>
      (open_search br = None \<and> search_box br = None \<and> clear_box br = None \<and>
         (\<exists>i\<le>length keyword. send_key br i = Some e \<and> (\<forall>j<i. send_key br j = None))) \<or>
      (open_search br = None \<and> search_box br = None \<and> clear_box br = None \<and>
         (\<forall>i\<le>length keyword. send_key br i = None) \<and> captcha (shown br 0) 0 = Inl e)"
  have "\<exists>tr'. search_try MAX_PAGES_TO_SCRAPE cfg br keyword target_url = Some (Inl e, tr')"
    using h early_raise [of br e MAX_PAGES_TO_SCRAPE cfg keyword target_url]
      key_raise [of br _ keyword e MAX_PAGES_TO_SCRAPE cfg target_url]
      first_poll_raise [of br keyword e 0 cfg target_url]
    unfolding MAX_PAGES_TO_SCRAPE_def by (metis One_nat_def)
  then obtain tr' where "search_try MAX_PAGES_TO_SCRAPE cfg br keyword target_url = Some (Inl e, tr')"
    by blast
  from raised_not_found [OF this]
  show "\<exists>tr'. find_google_rank cfg br keyword target_url =
         Some ((lit ''Not Found'', []),
               tr' @ [Log ERROR (if e = TimeoutException then SearchBoxNotFound keyword
                                 else UnexpectedError keyword e),
                      Log INFO (FinishedNotFound keyword)])"
    by (auto simp add: find_google_rank_def)
next
  assume "\<forall>i. \<exists>m. CAPTCHA_WAIT_TIMEOUT cfg \<le> gate_clock (shown br i) m"
  then show "\<exists>res tr'. find_google_rank_upto n cfg br keyword target_url = Some (res, tr')"
    by (rule find_google_rank_upto_returns)
qed

theorem rank_search_contains_failures_witness:
  "find_google_rank sample_config (sample_browser (Some TimeoutException) two_pages)
       (lit ''red shoes'') (lit ''shop.example'')
     = Some ((lit ''Not Found'', []),
             [Navigate, Delay AfterPageLoad, WaitSearchBox,
              Log ERROR (SearchBoxNotFound (lit ''red shoes'')),
              Log INFO (FinishedNotFound (lit ''red shoes''))])
   \<and> (\<exists>res tr. find_google_rank_upto 2 sample_config (sample_browser None two_pages)
                   (lit ''red shoes'') (lit ''shop.example'') = Some (res, tr))"
proof -
  have a: "open_search (sample_browser (Some TimeoutException) two_pages) = None \<and>
           search_box (sample_browser (Some TimeoutException) two_pages) = Some TimeoutException"
    by (simp add: sample_browser_def)
  have b: "\<forall>i. \<exists>m. CAPTCHA_WAIT_TIMEOUT sample_config
                    \<le> gate_clock (shown (sample_browser None two_pages) i) m"
  proof
    fix i
    have "CAPTCHA_WAIT_TIMEOUT sample_config
            \<le> gate_clock (shown (sample_browser None two_pages) i) 120"
      by (simp add: sample_config_def sample_browser_def two_pages_def results_page_def)
    then show "\<exists>m. CAPTCHA_WAIT_TIMEOUT sample_config
                    \<le> gate_clock (shown (sample_browser None two_pages) i) m"
      by blast
  qed
  note t1 = rank_search_contains_failures
      [where n = 1 and cfg = sample_config
         and br = "sample_browser (Some TimeoutException) two_pages"
         and keyword = "lit ''red shoes''" and target_url = "lit ''shop.example''"
         and e = TimeoutException and tr = "[]",
       THEN conjunct2, THEN conjunct1, THEN mp, OF a]
  note t2 = rank_search_contains_failures
      [where n = 2 and cfg = sample_config and br = "sample_browser None two_pages"
         and keyword = "lit ''red shoes''" and target_url = "lit ''shop.example''"
         and e = TimeoutException and tr = "[]",
       THEN conjunct2, THEN conjunct2, THEN conjunct2, THEN mp, OF b]
  from t1 t2 show ?thesis by blast
qed

lemma scan_and_advance_next:
  "fst (find_rank_on_current_page pg target_url off) = (None, None) \<Longrightarrow>
   next_button pg = None \<Longrightarrow> next_click pg = None \<Longrightarrow>
   scan_and_advance pg target_url page_num off =
     (NextPage, snd (find_rank_on_current_page pg target_url off) @
        [NextButtonQuery, Log INFO MovingToNextPage, Delay BeforeNextPage, NextClick])"
  by (cases "find_rank_on_current_page pg target_url off") (simp add: scan_and_advance_def)

lemma scan_and_advance_found:
  "fst (find_rank_on_current_page pg target_url off) = (Some r, Some u) \<Longrightarrow>
   scan_and_advance pg target_url page_num off =
     (Found (py_str r) u, snd (find_rank_on_current_page pg target_url off) @
        [Log INFO (FoundAtRank r page_num u)])"
  by (cases "find_rank_on_current_page pg target_url off") (simp add: scan_and_advance_def)

lemma scrape_page_next:
  "captcha pg 0 = Inr False \<Longrightarrow>
   fst (find_rank_on_current_page pg target_url off) = (None, None) \<Longrightarrow>
   next_button pg = None \<Longrightarrow> next_click pg = None \<Longrightarrow>
   scrape_page cfg pg keyword target_url page_num off =
     Some (NextPage,
       [Log INFO (ScrapingPage page_num keyword), Delay SerpRead, CaptchaPoll 0] @
       snd (find_rank_on_current_page pg target_url off) @
       [NextButtonQuery, Log INFO MovingToNextPage, Delay BeforeNextPage, NextClick])"
  by (simp add: scrape_page_def scan_and_advance_next)

lemma scrape_page_found:
  "captcha pg 0 = Inr False \<Longrightarrow>
   fst (find_rank_on_current_page pg target_url off) = (Some r, Some u) \<Longrightarrow>
   scrape_page cfg pg keyword target_url page_num off =
     Some (Found (py_str r) u,
       [Log INFO (ScrapingPage page_num keyword), Delay SerpRead, CaptchaPoll 0] @
       snd (find_rank_on_current_page pg target_url off) @
       [Log INFO (FoundAtRank r page_num u)])"
  by (simp add: scrape_page_def scan_and_advance_found)

lemma scan_trace_no_page_record:
  "Log INFO (ScrapingPage p keyword) \<notin> set (snd (find_rank_on_current_page pg target_url off))"
  by (auto simp add: find_rank_on_current_page_def split: sum.splits option.splits prod.splits)

lemma typing_no_page_record:
  "Log INFO (ScrapingPage p keyword) \<notin> set (concat (map (\<lambda>c. [Key c, Delay Typing]) w))"
  by (induction w) simp_all

lemma two_pages_scans:
  "fst (find_rank_on_current_page (two_pages 0) (lit ''shop.example'') 0) = (None, None)"
  "snd (find_rank_on_current_page (two_pages 0) (lit ''shop.example'') 0) = []"
  "fst (find_rank_on_current_page (two_pages 1) (lit ''shop.example'') 10)
     = (Some 11, Some (lit ''http://shop.example/red''))"
  by (simp_all add: two_pages_def results_page_def result_block_def find_rank_on_current_page_def
      scan_try_def py_enumerate_def py_strip_def py_isspace_def lit_def)

lemma two_pages_controls:
  "captcha (two_pages i) 0 = Inr False"
  "next_button (two_pages 0) = None" "next_click (two_pages 0) = None"
  by (simp_all add: two_pages_def results_page_def)

text \<open>
  Claim C4 as stated fails: page 1 has no match and a next-page control, page 2 would give
  rank 11 when scanned with offset 10, and the search, with the page limit of the code,
  activates the control and returns \<open>("Not Found", "")\<close> without a second scan.
\<close>
theorem next_page_counterexample:
  "fst (find_rank_on_current_page (two_pages 0) (lit ''shop.example'') 0) = (None, None)
   \<and> next_button (two_pages 0) = None
   \<and> fst (find_rank_on_current_page (two_pages 1) (lit ''shop.example'') 10)
       = (Some 11, Some (lit ''http://shop.example/red''))
   \<and> find_google_rank sample_config (sample_browser None two_pages)
        (lit ''red shoes'') (lit ''shop.example'')
       = Some ((lit ''Not Found'', []),
               [Navigate, Delay AfterPageLoad, WaitSearchBox] @
               concat (map (\<lambda>c. [Key c, Delay Typing]) (lit ''red shoes'')) @
               [Submit, Delay AfterPageLoad,
                Log INFO (ScrapingPage 1 (lit ''red shoes'')), Delay SerpRead, CaptchaPoll 0,
                NextButtonQuery, Log INFO MovingToNextPage, Delay BeforeNextPage, NextClick,
                Log INFO (FinishedNotFound (lit ''red shoes''))])"
proof -
  have "scrape_page sample_config (two_pages 0) (lit ''red shoes'') (lit ''shop.example'') 1 0
      = Some (NextPage,
          [Log INFO (ScrapingPage 1 (lit ''red shoes'')), Delay SerpRead, CaptchaPoll 0,
           NextButtonQuery, Log INFO MovingToNextPage, Delay BeforeNextPage, NextClick])"
    by (simp add: scrape_page_next two_pages_scans two_pages_controls)
  then have "find_google_rank sample_config (sample_browser None two_pages)
        (lit ''red shoes'') (lit ''shop.example'')
       = Some ((lit ''Not Found'', []),
               [Navigate, Delay AfterPageLoad, WaitSearchBox] @
               concat (map (\<lambda>c. [Key c, Delay Typing]) (lit ''red shoes'')) @
               [Submit, Delay AfterPageLoad,
                Log INFO (ScrapingPage 1 (lit ''red shoes'')), Delay SerpRead, CaptchaPoll 0,
                NextButtonQuery, Log INFO MovingToNextPage, Delay BeforeNextPage, NextClick,
                Log INFO (FinishedNotFound (lit ''red shoes''))])"
    by (simp add: find_google_rank_def find_google_rank_upto_def search_try_def
        MAX_PAGES_TO_SCRAPE_def sample_browser_def typed_all)
  with two_pages_scans(1) two_pages_controls(2) two_pages_scans(3) show ?thesis
    by blast
qed

lemma scrape_pages_next:
  "scrape_page cfg (shown br (page_num - 1)) keyword target_url page_num off = Some (NextPage, t) \<Longrightarrow>
   scrape_pages (Suc n) cfg br keyword target_url page_num off
     = (case scrape_pages n cfg br keyword target_url (Suc page_num) (off + 10) of
          None \<Rightarrow> None
        | Some (r, tr') \<Rightarrow> Some (r, t @ tr'))"
  by simp

lemma scrape_pages_found:
  "scrape_page cfg (shown br (page_num - 1)) keyword target_url page_num off
     = Some (Found r u, t) \<Longrightarrow>
   scrape_pages (Suc n) cfg br keyword target_url page_num off = Some (Inr (Some (r, u)), t)"
  by simp

lemma search_try_pages:
  "open_search br = None \<Longrightarrow> search_box br = None \<Longrightarrow> clear_box br = None \<Longrightarrow>
   \<forall>i\<le>length keyword. send_key br i = None \<Longrightarrow>
   scrape_pages n cfg br keyword target_url 1 0 = Some (r, tr) \<Longrightarrow>
   search_try n cfg br keyword target_url
     = Some (r, ([Navigate, Delay AfterPageLoad, WaitSearchBox] @
                 concat (map (\<lambda>c. [Key c, Delay Typing]) keyword) @
                 [Submit, Delay AfterPageLoad] @
                 (if detour_drawn br then [Detour] else [])) @ tr)"
  by (simp add: search_try_def typed_all)

lemma upto_not_found:
  "search_try n cfg br keyword target_url = Some (Inr None, tr) \<Longrightarrow>
   find_google_rank_upto n cfg br keyword target_url
     = Some ((lit ''Not Found'', []), tr @ [Log INFO (FinishedNotFound keyword)])"
  by (simp add: find_google_rank_upto_def)

lemma upto_found:
  "search_try n cfg br keyword target_url = Some (Inr (Some found), tr) \<Longrightarrow>
   find_google_rank_upto n cfg br keyword target_url = Some (found, tr)"
  by (simp add: find_google_rank_upto_def)

text \<open>
  Claim C4, amended. When page 1 yields no match and the next-page control is present, the
  search activates the control. With the page limit 1 of the code this is its last action:
  no second page is scraped and the result is \<open>("Not Found", "")\<close>. With a page limit of
  at least 2 the loop continues on page 2 with offset 10, and a match the scanner finds there
  with that offset is returned.
\<close>
theorem next_page_within_limit:
  assumes "open_search br = None" and "search_box br = None" and "clear_box br = None"
    and "\<forall>i\<le>length keyword. send_key br i = None"
    and "captcha (shown br 0) 0 = Inr False"
    and "fst (find_rank_on_current_page (shown br 0) target_url 0) = (None, None)"
    and "next_button (shown br 0) = None" and "next_click (shown br 0) = None"
  shows "(\<exists>tr. find_google_rank cfg br keyword target_url
              = Some ((lit ''Not Found'', []),
                      tr @ [NextClick, Log INFO (FinishedNotFound keyword)]) \<and>
            (\<forall>p. Log INFO (ScrapingPage (Suc (Suc p)) keyword) \<notin> set tr))
    \<and> scrape_pages (Suc (Suc n)) cfg br keyword target_url 1 0
        = (case scrape_pages (Suc n) cfg br keyword target_url 2 10 of
             None \<Rightarrow> None
           | Some (r, tr') \<Rightarrow>
               Some (r, ([Log INFO (ScrapingPage 1 keyword), Delay SerpRead, CaptchaPoll 0] @
                         snd (find_rank_on_current_page (shown br 0) target_url 0) @
                         [NextButtonQuery, Log INFO MovingToNextPage, Delay BeforeNextPage,
                          NextClick]) @ tr'))
    \<and> (\<forall>r u. captcha (shown br 1) 0 = Inr False \<and>
             fst (find_rank_on_current_page (shown br 1) target_url 10) = (Some r, Some u) \<longrightarrow>
             (\<exists>tr. find_google_rank_upto (Suc (Suc n)) cfg br keyword target_url
                     = Some ((py_str r, u), tr @ [Log INFO (FoundAtRank r 2 u)])))"
proof -
  let ?s0 = "snd (find_rank_on_current_page (shown br 0) target_url 0)"
  let ?t1 = "[Log INFO (ScrapingPage 1 keyword), Delay SerpRead, CaptchaPoll 0] @ ?s0 @
             [NextButtonQuery, Log INFO MovingToNextPage, Delay BeforeNextPage, NextClick]"
  let ?t0 = "[Navigate, Delay AfterPageLoad, WaitSearchBox] @
             concat (map (\<lambda>c. [Key c, Delay Typing]) keyword) @
             [Submit, Delay AfterPageLoad] @ (if detour_drawn br then [Detour] else [])"
  have page1: "scrape_page cfg (shown br (1 - 1)) keyword target_url 1 0 = Some (NextPage, ?t1)"
    using assms(5-8) by (simp add: scrape_page_next)
  have continue: "scrape_pages (Suc (Suc n)) cfg br keyword target_url 1 0
        = (case scrape_pages (Suc n) cfg br keyword target_url 2 10 of
             None \<Rightarrow> None
           | Some (r, tr') \<Rightarrow> Some (r, ?t1 @ tr'))"
    using scrape_pages_next [OF page1, of "Suc n"] by (simp only: Suc_1 add_0)
  have "scrape_pages (Suc 0) cfg br keyword target_url 1 0
        = (case scrape_pages 0 cfg br keyword target_url (Suc 1) (0 + 10) of
             None \<Rightarrow> None
           | Some (r, tr') \<Rightarrow> Some (r, ?t1 @ tr'))"
    by (rule scrape_pages_next [OF page1])
  then have one: "scrape_pages (Suc 0) cfg br keyword target_url 1 0 = Some (Inr None, ?t1)"
    by simp
  let ?tr = "?t0 @ [Log INFO (ScrapingPage 1 keyword), Delay SerpRead, CaptchaPoll 0] @ ?s0 @
             [NextButtonQuery, Log INFO MovingToNextPage, Delay BeforeNextPage]"
  have "search_try (Suc 0) cfg br keyword target_url = Some (Inr None, ?t0 @ ?t1)"
    using assms(1-4) one by (rule search_try_pages)
  then have "find_google_rank_upto (Suc 0) cfg br keyword target_url
          = Some ((lit ''Not Found'', []), (?t0 @ ?t1) @ [Log INFO (FinishedNotFound keyword)])"
    by (rule upto_not_found)
  then have nf: "find_google_rank cfg br keyword target_url
          = Some ((lit ''Not Found'', []), ?tr @ [NextClick, Log INFO (FinishedNotFound keyword)])"
    by (simp add: find_google_rank_def MAX_PAGES_TO_SCRAPE_def)
  have quiet: "\<forall>p. Log INFO (ScrapingPage (Suc (Suc p)) keyword) \<notin> set ?tr"
    by (simp add: scan_trace_no_page_record typing_no_page_record)
  from nf quiet have first: "\<exists>tr. find_google_rank cfg br keyword target_url
              = Some ((lit ''Not Found'', []),
                      tr @ [NextClick, Log INFO (FinishedNotFound keyword)]) \<and>
            (\<forall>p. Log INFO (ScrapingPage (Suc (Suc p)) keyword) \<notin> set tr)"
    by blast
  have third: "\<forall>r u. captcha (shown br 1) 0 = Inr False \<and>
             fst (find_rank_on_current_page (shown br 1) target_url 10) = (Some r, Some u) \<longrightarrow>
             (\<exists>tr. find_google_rank_upto (Suc (Suc n)) cfg br keyword target_url
                     = Some ((py_str r, u), tr @ [Log INFO (FoundAtRank r 2 u)]))"
  proof (intro allI impI)
    fix r u
    assume h: "captcha (shown br 1) 0 = Inr False \<and>
             fst (find_rank_on_current_page (shown br 1) target_url 10) = (Some r, Some u)"
    let ?t2 = "[Log INFO (ScrapingPage 2 keyword), Delay SerpRead, CaptchaPoll 0] @
               snd (find_rank_on_current_page (shown br 1) target_url 10)"
    have "scrape_page cfg (shown br 1) keyword target_url 2 10
        = Some (Found (py_str r) u, ?t2 @ [Log INFO (FoundAtRank r 2 u)])"
      using h by (simp add: scrape_page_found)
    then have "scrape_page cfg (shown br (2 - 1)) keyword target_url 2 10
        = Some (Found (py_str r) u, ?t2 @ [Log INFO (FoundAtRank r 2 u)])"
      by simp
    then have "scrape_pages (Suc n) cfg br keyword target_url 2 10
        = Some (Inr (Some (py_str r, u)), ?t2 @ [Log INFO (FoundAtRank r 2 u)])"
      by (rule scrape_pages_found)
    with continue have "scrape_pages (Suc (Suc n)) cfg br keyword target_url 1 0
        = Some (Inr (Some (py_str r, u)), ?t1 @ ?t2 @ [Log INFO (FoundAtRank r 2 u)])"
      by simp
    with assms(1-4) have "search_try (Suc (Suc n)) cfg br keyword target_url
        = Some (Inr (Some (py_str r, u)), ?t0 @ ?t1 @ ?t2 @ [Log INFO (FoundAtRank r 2 u)])"
      by (rule search_try_pages)
    then have "find_google_rank_upto (Suc (Suc n)) cfg br keyword target_url
        = Some ((py_str r, u), ?t0 @ ?t1 @ ?t2 @ [Log INFO (FoundAtRank r 2 u)])"
      by (rule upto_found)
    then have "find_google_rank_upto (Suc (Suc n)) cfg br keyword target_url
        = Some ((py_str r, u), (?t0 @ ?t1 @ ?t2) @ [Log INFO (FoundAtRank r 2 u)])"
      by simp
    then show "\<exists>tr. find_google_rank_upto (Suc (Suc n)) cfg br keyword target_url
                     = Some ((py_str r, u), tr @ [Log INFO (FoundAtRank r 2 u)])"
      by blast
  qed
  from first continue third show ?thesis by blast
qed

theorem next_page_within_limit_witness:
  "fst (find_rank_on_current_page (shown (sample_browser None two_pages) 0)
          (lit ''shop.example'') 0) = (None, None)
   \<and> next_button (shown (sample_browser None two_pages) 0) = None
   \<and> map_option fst (find_google_rank sample_config (sample_browser None two_pages)
          (lit ''red shoes'') (lit ''shop.example''))
       = Some (lit ''Not Found'', [])
   \<and> map_option fst (find_google_rank_upto 2 sample_config (sample_browser None two_pages)
          (lit ''red shoes'') (lit ''shop.example''))
       = Some (lit ''11'', lit ''http://shop.example/red'')"
proof -
  let ?br = "sample_browser None two_pages"
  have sh: "shown ?br = two_pages" by (simp add: sample_browser_def)
  have a: "open_search ?br = None" "search_box ?br = None" "clear_box ?br = None"
    "\<forall>i\<le>length (lit ''red shoes''). send_key ?br i = None"
    by (simp_all add: sample_browser_def)
  have b: "captcha (shown ?br 0) 0 = Inr False"
    "fst (find_rank_on_current_page (shown ?br 0) (lit ''shop.example'') 0) = (None, None)"
    "next_button (shown ?br 0) = None" "next_click (shown ?br 0) = None"
    by (simp_all add: sh two_pages_scans two_pages_controls)
  note T = next_page_within_limit [OF a b, of sample_config 0]
  have c: "captcha (shown ?br 1) 0 = Inr False \<and>
      fst (find_rank_on_current_page (shown ?br 1) (lit ''shop.example'') 10)
        = (Some 11, Some (lit ''http://shop.example/red''))"
    unfolding sh using two_pages_controls(1) [of 1] two_pages_scans(3) by blast
  from T have "map_option fst (find_google_rank sample_config ?br
          (lit ''red shoes'') (lit ''shop.example'')) = Some (lit ''Not Found'', [])"
    by auto
  moreover from T [THEN conjunct2, THEN conjunct2, rule_format, OF c]
  have "map_option fst (find_google_rank_upto 2 sample_config ?br
          (lit ''red shoes'') (lit ''shop.example''))
       = Some (lit ''11'', lit ''http://shop.example/red'')"
    by (auto simp add: numeral_2_eq_2 lit_def)
  ultimately show ?thesis using b by simp
qed

end
